theory Spec2Isabelle
  imports Main
begin

section \<open>Profile generation and remote registration of \<open>setup_conan.py\<close>\<close>

text \<open>
  The script has one function, \<open>Main\<close>, and two module-level tables,
  \<open>HOST_SETTINGS\<close> and \<open>BUILD_TYPES\<close>. The embedding follows it line by line:
  \<^item> a Python \<open>dict\<close> of strings is an association list in insertion order with
    distinct keys (\<open>items()\<close> iterates in that order, and the rendering depends on it);
  \<^item> a table entry is a record with the mandatory key \<open>name\<close> and the optional keys
    \<open>settings\<close> and \<open>env\<close> (read with \<open>entry.get(key, {})\<close>);
  \<^item> the three lists the permutation loop draws from are the store: an entry is
    addressed by its position in its list, and the write
    \<open>entry_settings['compiler.runtime'] = ...\<close> goes to the entry at that position, so
    later iterations read what earlier ones wrote, as they do through Python's aliasing;
  \<^item> the file system and the package-manager client are a record \<open>world\<close>; the calls
    that change them are also logged as events, in program order;
  \<^item> an exception that ends the run is a value of the result: the \<open>SystemExit\<close> of
    \<open>parse_args\<close> (line 125), the \<open>OSError\<close> of \<open>os.makedirs\<close> for a regular file in
    the way (line 132), the \<open>KeyError\<close> of \<open>HOST_SETTINGS[host_platform]\<close> (line 134)
    and the \<open>ConanException\<close> of \<open>conan.remote_add\<close> (line 147).
  The run starts from the command line, \<open>sys.argv[1:]\<close>. \<open>parse_args\<close>, \<open>os.makedirs\<close> and
  \<open>remote_add\<close> are library code: they are embedded as far as this script uses them
  (\<open>argparse\<close> and \<open>os\<close> of CPython 3.11 on POSIX, the remote registry of Conan 1.x). The
  file system is a map from paths to directories and regular files; it has no links,
  no permissions and no limits, and a file can be written at any path at which nothing
  is, so no other \<open>OSError\<close> arises in it. Strings are lists of 8-bit characters. What
  the script prints is left out.
\<close>

subsection \<open>Dictionaries\<close>

type_synonym dict = "(string \<times> string) list"

text \<open>\<open>d.get(k, default)\<close>\<close>

definition dict_get :: "dict \<Rightarrow> string \<Rightarrow> string \<Rightarrow> string" where
  "dict_get d k dflt = (case map_of d k of None \<Rightarrow> dflt | Some v \<Rightarrow> v)"

text \<open>\<open>d[k] = v\<close>: an existing key keeps its position, a new key goes last.\<close>

fun dict_setitem :: "dict \<Rightarrow> string \<Rightarrow> string \<Rightarrow> dict" where
  "dict_setitem [] k v = [(k, v)]"
| "dict_setitem ((k', v') # d) k v =
     (if k' = k then (k', v) # d else (k', v') # dict_setitem d k v)"

text \<open>\<open>d.update(e)\<close>: the items of \<open>e\<close> are stored one by one, in their order.\<close>

fun dict_update :: "dict \<Rightarrow> dict \<Rightarrow> dict" where
  "dict_update d [] = d"
| "dict_update d ((k, v) # e) = dict_update (dict_setitem d k v) e"

subsection \<open>The static tables\<close>

record entry =
  name :: string
  settings :: "dict option"
  env :: "dict option"

record platform =
  os_arch :: "entry list"
  compilers :: "entry list"

definition REMOTE :: string where
  "REMOTE = ''artyjay''"

definition REMOTE_URL :: string where
  "REMOTE_URL = ''https://artyjay.jfrog.io/artifactory/api/conan/conan-local''"

definition HOST_SETTINGS :: "(string \<times> platform) list" where
  "HOST_SETTINGS =
    [(''Linux'',
      \<lparr>os_arch =
         [\<lparr>name = ''linux-x86_64'',
           settings = Some [(''os'', ''Linux''), (''os_build'', ''Linux''),
                            (''arch'', ''x86_64''), (''arch_build'', ''x86_64'')],
           env = None\<rparr>],
       compilers =
         [\<lparr>name = ''clang'',
           settings = Some [(''compiler'', ''clang''), (''compiler.version'', ''11''),
                            (''compiler.libcxx'', ''libstdc++11'')],
           env = Some [(''CC'', ''clang-11''), (''CXX'', ''clang-11''),
                       (''AR'', ''llvm-ar-11''), (''NM'', ''llvm-nm-11''),
                       (''LD'', ''llvm-link-11''), (''STRIP'', ''llvm-strip-11'')]\<rparr>,
          \<lparr>name = ''gcc'',
           settings = Some [(''compiler'', ''gcc''), (''compiler.version'', ''10''),
                            (''compiler.libcxx'', ''libstdc++11'')],
           env = Some [(''CC'', ''gcc-10''), (''CXX'', ''g++-10''),
                       (''AR'', ''gcc-ar-10''), (''NM'', ''gcc-nm-10'')]\<rparr>]\<rparr>),
     (''Windows'',
      \<lparr>os_arch =
         [\<lparr>name = ''windows-x86_64'',
           settings = Some [(''os'', ''Windows''), (''os_build'', ''Windows''),
                            (''arch'', ''x86_64''), (''arch_build'', ''x86_64'')],
           env = None\<rparr>],
       compilers =
         [\<lparr>name = ''msvc_mt'',
           settings = Some [(''compiler'', ''Visual Studio''), (''compiler.version'', ''16''),
                            (''compiler.runtime'', ''MT'')],
           env = None\<rparr>]\<rparr>)]"

definition BUILD_TYPES :: "entry list" where
  "BUILD_TYPES =
    [\<lparr>name = ''debug'', settings = Some [(''build_type'', ''Debug'')], env = None\<rparr>,
     \<lparr>name = ''release'', settings = Some [(''build_type'', ''Release'')], env = None\<rparr>]"

subsection \<open>Rendering\<close>

text \<open>\<open>sep.join(xs)\<close>\<close>

fun join :: "string \<Rightarrow> string list \<Rightarrow> string" where
  "join sep [] = []"
| "join sep [x] = x"
| "join sep (x # y # ys) = x @ sep @ join sep (y # ys)"

text \<open>The local function \<open>values_string\<close>: one \<open>key=value\<close> line per item.\<close>

definition values_string :: "dict \<Rightarrow> string" where
  "values_string entry_dict =
     join [CHR 0x0A] (map (\<lambda>kv. fst kv @ ''='' @ snd kv) entry_dict)"

text \<open>\<open>CONAN_PROFILE_TEMPLATE.format(settings=..., env=...)\<close>\<close>

definition CONAN_PROFILE_TEMPLATE :: "string \<Rightarrow> string \<Rightarrow> string" where
  "CONAN_PROFILE_TEMPLATE settings_str env_str =
     ''[settings]'' @ [CHR 0x0A] @ settings_str @ [CHR 0x0A] @
     ''[options]'' @ [CHR 0x0A] @
     ''[build_requires]'' @ [CHR 0x0A] @
     ''[env]'' @ [CHR 0x0A] @ env_str @ [CHR 0x0A]"

subsection \<open>The command line (lines 119 to 125)\<close>

text \<open>
  The parser has two options: \<open>-h\<close>/\<open>--help\<close>, which \<open>ArgumentParser\<close> adds itself, and
  \<open>-p\<close>/\<open>--platform\<close>, which stores one string and is not declared \<open>required\<close>. It has no
  positional argument. \<open>parse_args\<close> returns the namespace, whose only attribute is
  \<open>platform\<close> (\<open>None\<close> when the option is not given), or ends the process: with status 0
  after printing the help, with status 2 after an error.
\<close>

datatype action = HelpAction | StoreAction

datatype parsed = Exit int | Namespace "string option"

text \<open>
  What \<open>_parse_optional\<close> makes of one argument string: a positional (\<open>None\<close> there), or
  an option with its action, option string, separator and explicit argument. \<open>Separator\<close>
  is the argument \<open>--\<close>; \<open>Ambiguous\<close> is the error of a prefix that fits two options.
\<close>

datatype arg_class =
  Positional
| Separator
| Optional "action option" string "string option" "string option"
| Ambiguous

definition OPTION_STRINGS :: "string list" where
  "OPTION_STRINGS = [''-h'', ''--help'', ''-p'', ''--platform'']"

definition action_of :: "string \<Rightarrow> action" where
  "action_of option_string =
     (if option_string = ''-h'' \<or> option_string = ''--help'' then HelpAction else StoreAction)"

text \<open>\<open>s.startswith(prefix)\<close>\<close>

definition startswith :: "string \<Rightarrow> string \<Rightarrow> bool" where
  "startswith s prefix = (take (length prefix) s = prefix)"

text \<open>
  \<open>_negative_number_matcher\<close>, the pattern \<open>^-\d+$|^-\d*\.\d+$\<close>; \<open>$\<close> also matches before
  a newline that ends the string.
\<close>

definition is_digit :: "char \<Rightarrow> bool" where
  "is_digit c = (c \<in> set ''0123456789'')"

definition negative_number :: "string \<Rightarrow> bool" where
  "negative_number arg_string =
     (let s = (if arg_string \<noteq> [] \<and> last arg_string = CHR 0x0A
               then butlast arg_string else arg_string);
          body = drop 1 s;
          whole = takeWhile (\<lambda>c. c \<noteq> CHR ''.'') body;
          fraction = drop 1 (dropWhile (\<lambda>c. c \<noteq> CHR ''.'') body)
      in take 1 s = ''-'' \<and>
         ((body \<noteq> [] \<and> list_all is_digit body) \<or>
          (CHR ''.'' \<in> set body \<and> list_all is_digit whole \<and>
           fraction \<noteq> [] \<and> list_all is_digit fraction)))"

text \<open>\<open>_get_option_tuples\<close>: the options an abbreviation or a short-option cluster fits.\<close>

definition get_option_tuples ::
  "string \<Rightarrow> (action option \<times> string \<times> string option \<times> string option) list" where
  "get_option_tuples option_string =
     (if take 1 (drop 1 option_string) = ''-'' then
        (let option_prefix = takeWhile (\<lambda>c. c \<noteq> CHR ''='') option_string;
             has_sep = (CHR ''='' \<in> set option_string);
             sep = (if has_sep then Some ''='' else None);
             explicit_arg =
               (if has_sep then Some (drop 1 (dropWhile (\<lambda>c. c \<noteq> CHR ''='') option_string))
                else None)
         in map (\<lambda>opt. (Some (action_of opt), opt, sep, explicit_arg))
              (filter (\<lambda>opt. startswith opt option_prefix) OPTION_STRINGS))
      else
        (let option_prefix = option_string;
             short_option_prefix = take 2 option_string;
             short_explicit_arg = drop 2 option_string
         in concat (map (\<lambda>opt.
              if opt = short_option_prefix
              then [(Some (action_of opt), opt, Some [], Some short_explicit_arg)]
              else if startswith opt option_prefix
              then [(Some (action_of opt), opt, None, None)]
              else []) OPTION_STRINGS)))"

text \<open>\<open>_parse_optional\<close>\<close>

definition parse_optional :: "string \<Rightarrow> arg_class" where
  "parse_optional arg_string =
     (if arg_string = [] then Positional
      else if hd arg_string \<noteq> CHR ''-'' then Positional
      else if arg_string \<in> set OPTION_STRINGS
      then Optional (Some (action_of arg_string)) arg_string None None
      else if length arg_string = 1 then Positional
      else
        (let option_string = takeWhile (\<lambda>c. c \<noteq> CHR ''='') arg_string;
             has_sep = (CHR ''='' \<in> set arg_string);
             explicit_arg = drop 1 (dropWhile (\<lambda>c. c \<noteq> CHR ''='') arg_string)
         in if has_sep \<and> option_string \<in> set OPTION_STRINGS
            then Optional (Some (action_of option_string)) option_string
                   (Some ''='') (Some explicit_arg)
            else
              (case get_option_tuples arg_string of
                 [] \<Rightarrow>
                   if negative_number arg_string then Positional
                   else if CHR '' '' \<in> set arg_string then Positional
                   else Optional None arg_string None None
               | [option_tuple] \<Rightarrow>
                   (case option_tuple of
                      (act, opt, sep, explicit_arg) \<Rightarrow> Optional act opt sep explicit_arg)
               | _ \<Rightarrow> Ambiguous)))"

text \<open>
  The first pass of \<open>_parse_known_args\<close>: every argument string is classified; after
  \<open>--\<close> all of them are positionals.
\<close>

fun classify :: "string list \<Rightarrow> arg_class list" where
  "classify [] = []"
| "classify (arg_string # arg_strings) =
     (if arg_string = ''--'' then Separator # map (\<lambda>a. Positional) arg_strings
      else parse_optional arg_string # classify arg_strings)"

text \<open>
  \<open>consume_optional\<close> for one option: the explicit argument of a single-dash help
  option is read as further short options. \<open>next_arg\<close> is the next argument string when
  it is a positional. \<open>helped\<close> says that the help action is among the actions collected:
  they are taken in order, and the help action ends the process with status 0.
\<close>

datatype consumed = Error | Help | Extra | Stored string nat

function consume_optional ::
  "bool \<Rightarrow> action option \<Rightarrow> string \<Rightarrow> string option \<Rightarrow> string option \<Rightarrow> string option
     \<Rightarrow> consumed" where
  "consume_optional helped act option_string sep explicit_arg next_arg =
     (case act of
        None \<Rightarrow> Extra
      | Some HelpAction \<Rightarrow>
          (case explicit_arg of
             None \<Rightarrow> Help
           | Some e \<Rightarrow>
               if take 1 (drop 1 option_string) \<noteq> ''-'' \<and> e \<noteq> [] then
                 (if (sep \<noteq> None \<and> sep \<noteq> Some []) \<or> hd e = CHR ''-'' then Error
                  else
                    (let option_string' = [CHR ''-'', hd e] in
                     if option_string' \<in> set OPTION_STRINGS then
                       (let e' = tl e in
                        if e' = []
                        then consume_optional True (Some (action_of option_string'))
                               option_string' None None next_arg
                        else if hd e' = CHR ''=''
                        then consume_optional True (Some (action_of option_string'))
                               option_string' (Some ''='') (Some (tl e')) next_arg
                        else consume_optional True (Some (action_of option_string'))
                               option_string' (Some []) (Some e') next_arg)
                     else Help))
               else Error)
      | Some StoreAction \<Rightarrow>
          (case explicit_arg of
             Some e \<Rightarrow> if helped then Help else Stored e 1
           | None \<Rightarrow>
               (case next_arg of
                  Some a \<Rightarrow> if helped then Help else Stored a 2
                | None \<Rightarrow> Error)))"
  by pat_completeness auto
termination
  by (relation "measure (\<lambda>(helped, act, option_string, sep, explicit_arg, next_arg).
        case explicit_arg of None \<Rightarrow> 0 | Some e \<Rightarrow> Suc (length e))")
     (auto simp: less_Suc_eq_le neq_Nil_conv)

declare consume_optional.simps [simp del]

text \<open>
  The loop of \<open>_parse_known_args\<close> over the classified arguments. An argument that is
  no option, and an option the parser does not know, are left over; \<open>parse_args\<close> ends
  with an error when anything is left over.
\<close>

function consume_all :: "(arg_class \<times> string) list \<Rightarrow> string option \<Rightarrow> bool \<Rightarrow> parsed" where
  "consume_all [] platform extras = (if extras then Exit 2 else Namespace platform)"
| "consume_all ((cls, arg_string) # rest) platform extras =
     (case cls of
        Positional \<Rightarrow> consume_all rest platform True
      | Separator \<Rightarrow> consume_all rest platform True
      | Ambiguous \<Rightarrow> Exit 2
      | Optional act option_string sep explicit_arg \<Rightarrow>
          (case consume_optional False act option_string sep explicit_arg
                  (case rest of (Positional, a) # _ \<Rightarrow> Some a | _ \<Rightarrow> None) of
             Error \<Rightarrow> Exit 2
           | Help \<Rightarrow> Exit 0
           | Extra \<Rightarrow> consume_all rest platform True
           | Stored v n \<Rightarrow> consume_all (drop (n - 1) rest) (Some v) extras))"
  by pat_completeness auto
termination
  by (relation "measure (\<lambda>(args, platform, extras). length args)") auto

text \<open>\<open>parser.parse_args()\<close> on \<open>sys.argv[1:]\<close>\<close>

definition parse_args :: "string list \<Rightarrow> parsed" where
  "parse_args argv =
     (let classes = classify argv
      in if Ambiguous \<in> set classes then Exit 2
         else consume_all (zip classes argv) None False)"

subsection \<open>The world outside the process\<close>

text \<open>
  A path of the file system holds a directory or a regular file with its text. A remote
  of the client has a name, a URL and the flag \<open>verify_ssl\<close>. \<open>home\<close> is what
  \<open>pathlib.Path.home()\<close> returns.
\<close>

datatype node = Dir | File string

record remote =
  remote_name :: string
  remote_url :: string
  verify_ssl :: bool

record world =
  home :: string
  fs :: "string \<rightharpoonup> node"
  remotes :: "remote list"

text \<open>The calls that change the world, as the run makes them.\<close>

datatype event =
  MakeDirs string
| RemoteAdd string string
| WriteFile string string

text \<open>
  What ends a run early: \<open>SystemExit\<close> with its status, the \<open>KeyError\<close> of the table
  lookup with its key, the two \<open>OSError\<close>s of \<open>os.makedirs\<close> with their file name, and
  the client's \<open>ConanException\<close>.
\<close>

datatype error =
  SystemExit int
| KeyError "string option"
| FileExistsError string
| NotADirectoryError string
| ConanException

text \<open>\<open>os.path.join(a, b)\<close> (\<open>posixpath\<close>): an absolute \<open>b\<close> replaces \<open>a\<close>.\<close>

definition path_join :: "string \<Rightarrow> string \<Rightarrow> string" where
  "path_join a b =
     (if take 1 b = ''/'' then b
      else if a = [] \<or> last a = CHR ''/'' then a @ b
      else a @ ''/'' @ b)"

text \<open>
  \<open>os.path.dirname(p)\<close> (\<open>posixpath\<close>): \<open>p\<close> up to its last slash, without the slashes
  that end this head unless it has nothing else. It is a prefix of \<open>p\<close>; \<open>dirlen\<close> is its
  length.
\<close>

definition dirlen :: "string \<Rightarrow> nat" where
  "dirlen p =
     (let i = length p - length (takeWhile (\<lambda>c. c \<noteq> CHR ''/'') (rev p));
          head = take i p
      in if head \<noteq> [] \<and> \<not> list_all (\<lambda>c. c = CHR ''/'') head
         then length (dropWhile (\<lambda>c. c = CHR ''/'') (rev head))
         else i)"

definition dirname :: "string \<Rightarrow> string" where
  "dirname p = take (dirlen p) p"

text \<open>The directories on the way to \<open>path\<close>, the topmost first, and \<open>path\<close> itself last.\<close>

function path_chain :: "string \<Rightarrow> string list" where
  "path_chain path =
     (let head = dirname path
      in if head = [] \<or> head = path then [path] else path_chain head @ [path])"
  by pat_completeness auto
termination
  by (relation "measure length") (auto simp: dirname_def not_less)

declare path_chain.simps [simp del]

text \<open>
  \<open>os.makedirs(path, exist_ok=True)\<close> makes the directories of the chain that are
  missing, the topmost first. A regular file on the way ends it: \<open>mkdir\<close> raises
  \<open>FileExistsError\<close> for a file at \<open>path\<close> itself (\<open>exist_ok\<close> excuses a directory only),
  and \<open>NotADirectoryError\<close> for the path below a file that is in the place of a
  directory. What is there already stays as it is.
\<close>

fun make_missing ::
  "string list \<Rightarrow> (string \<rightharpoonup> node) \<Rightarrow> error option \<times> (string \<rightharpoonup> node)" where
  "make_missing [] files = (None, files)"
| "make_missing (p # ps) files =
     (case files p of
        None \<Rightarrow> make_missing ps (files(p \<mapsto> Dir))
      | Some Dir \<Rightarrow> make_missing ps files
      | Some (File content) \<Rightarrow>
          (case ps of
             [] \<Rightarrow> (Some (FileExistsError p), files)
           | child # _ \<Rightarrow> (Some (NotADirectoryError child), files)))"

definition makedirs ::
  "string \<Rightarrow> world \<times> event list \<Rightarrow> error option \<times> world \<times> event list" where
  "makedirs path st =
     (case st of (w, log) \<Rightarrow>
        (case make_missing (path_chain path) (fs w) of
           (raised, files) \<Rightarrow> (raised, w\<lparr>fs := files\<rparr>, log @ [MakeDirs path])))"

text \<open>
  \<open>conan.remote_add(name, url)\<close>, with \<open>verify_ssl=True\<close> by default. The registry of
  Conan 1.x refuses a name it has, and a URL that the first remote holding it has with
  the same \<open>verify_ssl\<close>; then it raises and stays as it is. Otherwise the remote goes
  last.
\<close>

definition remote_add ::
  "string \<Rightarrow> string \<Rightarrow> world \<times> event list \<Rightarrow> error option \<times> world \<times> event list" where
  "remote_add n url st =
     (case st of (w, log) \<Rightarrow>
        (let prev_remote = filter (\<lambda>r. remote_url r = url) (remotes w)
         in if n \<in> set (map remote_name (remotes w))
               \<or> (prev_remote \<noteq> [] \<and> verify_ssl (hd prev_remote))
            then (Some ConanException, w, log @ [RemoteAdd n url])
            else (None,
                  w\<lparr>remotes := remotes w @
                      [\<lparr>remote_name = n, remote_url = url, verify_ssl = True\<rparr>]\<rparr>,
                  log @ [RemoteAdd n url])))"

subsection \<open>Registering the remote (lines 139 to 150)\<close>

definition register_remote ::
  "world \<times> event list \<Rightarrow> error option \<times> world \<times> event list" where
  "register_remote st =
     (let remote_list = remotes (fst st);
          found = filter (\<lambda>x. remote_name x = REMOTE) remote_list
      in if length found = 0 then remote_add REMOTE REMOTE_URL st else (None, st))"

subsection \<open>One combination (lines 154 to 197)\<close>

text \<open>
  The body of \<open>for entry in profile\<close>. It returns the entry as the loop leaves it: the
  assignment to \<open>entry_settings['compiler.runtime']\<close> writes into the entry's own
  dictionary when the entry has one (without the key \<open>settings\<close> the dictionary is the
  fresh \<open>{}\<close> of \<open>get\<close>, whose \<open>compiler\<close> is never \<open>Visual Studio\<close>).
\<close>

definition merge_entry ::
  "string \<Rightarrow> string \<Rightarrow> entry \<Rightarrow> dict \<times> dict \<Rightarrow> entry \<times> dict \<times> dict" where
  "merge_entry compiler_name build_name entry acc =
     (let profile_settings = fst acc;
          profile_env = snd acc;
          entry_settings = (case settings entry of None \<Rightarrow> [] | Some d \<Rightarrow> d);
          entry_env = (case env entry of None \<Rightarrow> [] | Some d \<Rightarrow> d)
      in if dict_get entry_settings ''compiler'' [] = ''Visual Studio'' then
           (let runtime = (if compiler_name = ''msvc_mt'' then ''MT'' else ''MD'');
                debug_suffix = (if build_name = ''debug'' then ''d'' else []);
                runtime_value = runtime @ debug_suffix;
                entry_settings' = dict_setitem entry_settings ''compiler.runtime'' runtime_value
            in ((case settings entry of None \<Rightarrow> entry
                 | Some _ \<Rightarrow> entry\<lparr>settings := Some entry_settings'\<rparr>),
                dict_update profile_settings entry_settings',
                dict_update profile_env entry_env))
         else (entry,
               dict_update profile_settings entry_settings,
               dict_update profile_env entry_env))"

text \<open>
  The three lists of \<open>itertools.product(os_arch_types, compiler_types, BUILD_TYPES)\<close>.
  A combination is a triple of positions in them.
\<close>

record store =
  os_arch_types :: "entry list"
  compiler_types :: "entry list"
  build_types :: "entry list"

text \<open>Lines 154 to 178: the names, and the merge of the three entries in their order.\<close>

definition merge_profile :: "store \<Rightarrow> nat \<times> nat \<times> nat \<Rightarrow> store \<times> dict \<times> dict" where
  "merge_profile s c =
     (case c of (i, j, k) \<Rightarrow>
        (let os_arch = os_arch_types s ! i;
             compiler = compiler_types s ! j;
             build = build_types s ! k;
             compiler_name = name compiler;
             build_name = name build;
             r1 = merge_entry compiler_name build_name os_arch ([], []);
             r2 = merge_entry compiler_name build_name compiler (snd r1);
             r3 = merge_entry compiler_name build_name build (snd r2)
         in (\<lparr>os_arch_types = (os_arch_types s)[i := fst r1],
              compiler_types = (compiler_types s)[j := fst r2],
              build_types = (build_types s)[k := fst r3]\<rparr>,
             snd r3)))"

text \<open>Lines 183 to 188: the profile's name and its text.\<close>

definition build_profile :: "store \<Rightarrow> nat \<times> nat \<times> nat \<Rightarrow> store \<times> string \<times> string" where
  "build_profile s c =
     (case c of (i, j, k) \<Rightarrow>
        (let os_arch_name = name (os_arch_types s ! i);
             compiler_name = name (compiler_types s ! j);
             build_name = name (build_types s ! k);
             m = merge_profile s c;
             profile_name = os_arch_name @ ''-'' @ compiler_name @ ''-'' @ build_name;
             profile_settings_str = values_string (fst (snd m));
             profile_env_str = values_string (snd (snd m));
             profile = CONAN_PROFILE_TEMPLATE profile_settings_str profile_env_str
         in (fst m, profile_name, profile)))"

text \<open>Lines 190 to 197: the file is written only when nothing is at its path.\<close>

definition write_profile ::
  "string \<Rightarrow> string \<times> string \<Rightarrow> world \<times> event list \<Rightarrow> world \<times> event list" where
  "write_profile profiles_path np st =
     (case st of (w, log) \<Rightarrow>
        (let profile_name = fst np;
             profile = snd np;
             profile_path = path_join profiles_path profile_name
         in if fs w profile_path = None
            then (w\<lparr>fs := (fs w)(profile_path \<mapsto> File profile)\<rparr>,
                  log @ [WriteFile profile_path profile])
            else (w, log)))"

text \<open>The loop of line 153 over a sequence of combinations.\<close>

fun generate_profiles ::
  "string \<Rightarrow> (nat \<times> nat \<times> nat) list \<Rightarrow> store \<times> world \<times> event list
     \<Rightarrow> store \<times> world \<times> event list" where
  "generate_profiles profiles_path [] st = st"
| "generate_profiles profiles_path (c # cs) st =
     (let b = build_profile (fst st) c
      in generate_profiles profiles_path cs
           (fst b, write_profile profiles_path (snd b) (snd st)))"

text \<open>\<open>itertools.product\<close> of three lists, as positions: the last one runs fastest.\<close>

definition combinations :: "store \<Rightarrow> (nat \<times> nat \<times> nat) list" where
  "combinations s =
     List.product [0..<length (os_arch_types s)]
       (List.product [0..<length (compiler_types s)] [0..<length (build_types s)])"

subsection \<open>The script\<close>

text \<open>
  \<open>Main\<close>, with the two tables as parameters, on the command line \<open>argv\<close>. An exception
  ends the run where it is raised, with the world as it is then.
\<close>

definition Main_on ::
  "(string \<times> platform) list \<Rightarrow> entry list \<Rightarrow> string list \<Rightarrow> world
     \<Rightarrow> (error + unit) \<times> world \<times> event list" where
  "Main_on host_settings build_types_list argv w =
     (case parse_args argv of
        Exit status \<Rightarrow> (Inl (SystemExit status), w, [])
      | Namespace platform \<Rightarrow>
          (let host_platform = platform;
               profiles_path = path_join (path_join (home w) ''.conan'') ''profiles''
           in case makedirs profiles_path (w, []) of
                (Some e, st1) \<Rightarrow> (Inl e, st1)
              | (None, st1) \<Rightarrow>
                  (case (case host_platform of None \<Rightarrow> None
                         | Some p \<Rightarrow> map_of host_settings p) of
                     None \<Rightarrow> (Inl (KeyError host_platform), st1)
                   | Some platform_settings \<Rightarrow>
                       (let s = \<lparr>os_arch_types = os_arch platform_settings,
                                 compiler_types = compilers platform_settings,
                                 build_types = build_types_list\<rparr>
                        in case register_remote st1 of
                             (Some e, st2) \<Rightarrow> (Inl e, st2)
                           | (None, st2) \<Rightarrow>
                               (Inr (),
                                snd (generate_profiles profiles_path (combinations s)
                                       (s, st2)))))))"

definition Main :: "string list \<Rightarrow> world \<Rightarrow> (error + unit) \<times> world \<times> event list" where
  "Main = Main_on HOST_SETTINGS BUILD_TYPES"


subsection \<open>Notions the statements use\<close>

text \<open>
  A list represents a Python dictionary when its keys are distinct. The entries of a
  store are well formed when their dictionaries are.
\<close>

definition dict_ok :: "dict \<Rightarrow> bool" where
  "dict_ok d = distinct (map fst d)"

definition settings_of :: "entry \<Rightarrow> dict" where
  "settings_of e = (case settings e of None \<Rightarrow> [] | Some d \<Rightarrow> d)"

definition env_of :: "entry \<Rightarrow> dict" where
  "env_of e = (case env e of None \<Rightarrow> [] | Some d \<Rightarrow> d)"

definition entry_ok :: "entry \<Rightarrow> bool" where
  "entry_ok e = (dict_ok (settings_of e) \<and> dict_ok (env_of e))"

definition store_ok :: "store \<Rightarrow> bool" where
  "store_ok s =
     (list_all entry_ok (os_arch_types s) \<and> list_all entry_ok (compiler_types s) \<and>
      list_all entry_ok (build_types s))"

text \<open>The positions of a combination are inside the three lists.\<close>

definition valid :: "store \<Rightarrow> nat \<times> nat \<times> nat \<Rightarrow> bool" where
  "valid s c =
     (case c of (i, j, k) \<Rightarrow>
        i < length (os_arch_types s) \<and> j < length (compiler_types s) \<and>
        k < length (build_types s))"

text \<open>The entry's own settings say that its compiler is Visual Studio.\<close>

definition is_vs :: "entry \<Rightarrow> bool" where
  "is_vs e = (dict_get (settings_of e) ''compiler'' [] = ''Visual Studio'')"

text \<open>
  The runtime linkage in the words of the specification: \<open>MT\<close> or \<open>MTd\<close> for the
  variant \<open>msvc_mt\<close>, \<open>MD\<close> or \<open>MDd\<close> for any other, the \<open>d\<close> for the build type
  \<open>debug\<close>.
\<close>

definition runtime_linkage :: "string \<Rightarrow> string \<Rightarrow> string" where
  "runtime_linkage variant build =
     (if variant = ''msvc_mt'' then (if build = ''debug'' then ''MTd'' else ''MT'')
      else (if build = ''debug'' then ''MDd'' else ''MD''))"

text \<open>What lines 171 to 175 leave in an entry.\<close>

definition apply_runtime :: "string \<Rightarrow> string \<Rightarrow> entry \<Rightarrow> entry" where
  "apply_runtime cn bn e =
     (if is_vs e
      then e\<lparr>settings := Some (dict_setitem (settings_of e) ''compiler.runtime''
                 ((if cn = ''msvc_mt'' then ''MT'' else ''MD'') @
                  (if bn = ''debug'' then ''d'' else [])))\<rparr>
      else e)"

text \<open>
  An entry as earlier iterations can have left it: untouched, or, when its compiler is
  Visual Studio, with some value stored under \<open>compiler.runtime\<close>.
\<close>

definition mutated :: "entry \<Rightarrow> entry \<Rightarrow> bool" where
  "mutated e0 e =
     (e = e0 \<or>
      (is_vs e0 \<and>
       (\<exists>v. e = e0\<lparr>settings := Some (dict_setitem (settings_of e0) ''compiler.runtime'' v)\<rparr>)))"

definition store_rel :: "store \<Rightarrow> store \<Rightarrow> bool" where
  "store_rel s0 s =
     (list_all2 mutated (os_arch_types s0) (os_arch_types s) \<and>
      list_all2 mutated (compiler_types s0) (compiler_types s) \<and>
      list_all2 mutated (build_types s0) (build_types s))"

text \<open>
  The name and the text the loop computes for each combination of a sequence, in order,
  with the store handed from one iteration to the next as \<open>generate_profiles\<close> does.
\<close>

fun rendered_profiles :: "(nat \<times> nat \<times> nat) list \<Rightarrow> store \<Rightarrow> (string \<times> string) list" where
  "rendered_profiles [] s = []"
| "rendered_profiles (c # cs) s =
     snd (build_profile s c) # rendered_profiles cs (fst (build_profile s c))"

text \<open>The store after the loop has run over a sequence of combinations.\<close>

fun store_after :: "(nat \<times> nat \<times> nat) list \<Rightarrow> store \<Rightarrow> store" where
  "store_after [] s = s"
| "store_after (c # cs) s = store_after cs (fst (build_profile s c))"

text \<open>The paths and texts of the files a log writes.\<close>

fun written :: "event list \<Rightarrow> (string \<times> string) list" where
  "written [] = []"
| "written (WriteFile p t # es) = (p, t) # written es"
| "written (e # es) = written es"

text \<open>The remotes a log adds.\<close>

fun added :: "event list \<Rightarrow> (string \<times> string) list" where
  "added [] = []"
| "added (RemoteAdd n u # es) = (n, u) # added es"
| "added (e # es) = added es"

text \<open>The profiles directory of a world (line 130).\<close>

definition profiles_dir :: "world \<Rightarrow> string" where
  "profiles_dir w = path_join (path_join (home w) ''.conan'') ''profiles''"

text \<open>The store a platform of the table gives the loop (lines 136, 137 and 153).\<close>

definition store_of :: "platform \<Rightarrow> entry list \<Rightarrow> store" where
  "store_of pl bts =
     \<lparr>os_arch_types = os_arch pl, compiler_types = compilers pl, build_types = bts\<rparr>"

text \<open>The file writes of lines 190 to 197 for a sequence of profiles.\<close>

definition write_all ::
  "string \<Rightarrow> (string \<times> string) list \<Rightarrow> world \<times> event list \<Rightarrow> world \<times> event list" where
  "write_all profiles_path nps st = foldl (\<lambda>st np. write_profile profiles_path np st) st nps"

subsection \<open>Inputs of the examples\<close>

text \<open>
  A world whose home directory has nothing in it and whose client has no remote; the
  same with a regular file in the place of the profiles directory; the same with a
  remote of another name that holds the URL; and a table whose Windows platform differs
  from the one of \<open>HOST_SETTINGS\<close>.
\<close>

definition fresh_world :: world where
  "fresh_world =
     \<lparr>home = ''/home/u'',
      fs = [''/'' \<mapsto> Dir, ''/home'' \<mapsto> Dir, ''/home/u'' \<mapsto> Dir],
      remotes = []\<rparr>"

definition blocked_world :: world where
  "blocked_world =
     fresh_world\<lparr>fs := (fs fresh_world)
       (''/home/u/.conan'' \<mapsto> Dir, ''/home/u/.conan/profiles'' \<mapsto> File ''x'')\<rparr>"

definition mirrored_world :: world where
  "mirrored_world =
     fresh_world\<lparr>remotes :=
       [\<lparr>remote_name = ''mirror'', remote_url = REMOTE_URL, verify_ssl = True\<rparr>]\<rparr>"

definition HOST_SETTINGS_vs17 :: "(string \<times> platform) list" where
  "HOST_SETTINGS_vs17 =
    [(''Windows'',
      \<lparr>os_arch =
         [\<lparr>name = ''windows-x86_64'',
           settings = Some [(''os'', ''Windows''), (''arch'', ''x86_64'')],
           env = None\<rparr>],
       compilers =
         [\<lparr>name = ''msvc_mt'',
           settings = Some [(''compiler'', ''Visual Studio''), (''compiler.version'', ''17'')],
           env = None\<rparr>]\<rparr>)]"

text \<open>The store of a platform of \<open>HOST_SETTINGS\<close>, by its name.\<close>

definition platform_store :: "string \<Rightarrow> store" where
  "platform_store p =
     (case map_of HOST_SETTINGS p of
        None \<Rightarrow> store_of \<lparr>os_arch = [], compilers = []\<rparr> BUILD_TYPES
      | Some pl \<Rightarrow> store_of pl BUILD_TYPES)"

section \<open>Dictionaries, the store and the writes: basic facts\<close>

lemma map_of_dict_setitem: "map_of (dict_setitem d k v) = (map_of d)(k \<mapsto> v)"
  by (induction d k v rule: dict_setitem.induct) (auto simp: fun_eq_iff)

lemma keys_dict_setitem: "fst ` set (dict_setitem d k v) = insert k (fst ` set d)"
  by (induction d k v rule: dict_setitem.induct) auto

lemma distinct_dict_setitem:
  "distinct (map fst d) \<Longrightarrow> distinct (map fst (dict_setitem d k v))"
  by (induction d k v rule: dict_setitem.induct) (auto simp: keys_dict_setitem)

lemma dict_setitem_again: "dict_setitem (dict_setitem d k v) k v' = dict_setitem d k v'"
  by (induction d k v rule: dict_setitem.induct) auto

lemma distinct_dict_update:
  "distinct (map fst d) \<Longrightarrow> distinct (map fst (dict_update d e))"
  by (induction d e rule: dict_update.induct) (auto simp: distinct_dict_setitem)

lemma map_of_dict_update:
  "distinct (map fst e) \<Longrightarrow> map_of (dict_update d e) = map_of d ++ map_of e"
proof (induction d e rule: dict_update.induct)
  case (1 d)
  then show ?case by simp
next
  case (2 d k v e)
  from "2.prems" have fresh: "k \<notin> dom (map_of e)" and rest: "distinct (map fst e)"
    by (auto simp: dom_map_of_conv_image_fst)
  have "map_of (dict_update d ((k, v) # e)) = map_of (dict_setitem d k v) ++ map_of e"
    using "2.IH" [OF rest] by simp
  also have "\<dots> = (map_of d)(k \<mapsto> v) ++ map_of e"
    by (simp only: map_of_dict_setitem)
  also have "\<dots> = (map_of d ++ map_of e)(k \<mapsto> v)"
    using fresh by (rule map_add_upd_left)
  also have "\<dots> = map_of d ++ (map_of e)(k \<mapsto> v)"
    by (simp only: map_add_upd)
  also have "(map_of e)(k \<mapsto> v) = map_of ((k, v) # e)"
    by (simp only: map_of.simps fst_conv snd_conv)
  finally show ?case .
qed

lemma dict_get_setitem_other:
  "k' \<noteq> k \<Longrightarrow> dict_get (dict_setitem d k v) k' dflt = dict_get d k' dflt"
  by (simp add: dict_get_def map_of_dict_setitem)

lemma is_vs_settings: "is_vs e \<Longrightarrow> \<exists>d. settings e = Some d"
  by (cases "settings e") (auto simp: is_vs_def settings_of_def dict_get_def)

lemma merge_entry_eq:
  "merge_entry cn bn e acc =
     (apply_runtime cn bn e,
      dict_update (fst acc) (settings_of (apply_runtime cn bn e)),
      dict_update (snd acc) (env_of e))"
proof (cases "is_vs e")
  case True
  then obtain d where "settings e = Some d"
    using is_vs_settings by blast
  with True show ?thesis
    by (simp add: merge_entry_def apply_runtime_def is_vs_def settings_of_def env_of_def Let_def)
next
  case False
  then show ?thesis
    by (simp add: merge_entry_def apply_runtime_def is_vs_def settings_of_def env_of_def Let_def)
qed

lemma mutated_refl: "mutated e e"
  by (simp add: mutated_def)

lemma mutated_name: "mutated e0 e \<Longrightarrow> name e = name e0"
  by (auto simp: mutated_def)

lemma mutated_env: "mutated e0 e \<Longrightarrow> env_of e = env_of e0"
  by (auto simp: mutated_def env_of_def)

lemma mutated_is_vs: "mutated e0 e \<Longrightarrow> is_vs e = is_vs e0"
  by (auto simp: mutated_def is_vs_def settings_of_def dict_get_setitem_other)

lemma apply_runtime_mutated:
  assumes "mutated e0 e"
  shows "apply_runtime cn bn e = apply_runtime cn bn e0"
proof (cases "e = e0")
  case True
  then show ?thesis by simp
next
  case False
  with assms obtain v where vs: "is_vs e0"
    and e: "e = e0\<lparr>settings := Some (dict_setitem (settings_of e0) ''compiler.runtime'' v)\<rparr>"
    by (auto simp: mutated_def)
  have "is_vs e"
    using assms vs by (simp add: mutated_is_vs)
  moreover have "settings_of e = dict_setitem (settings_of e0) ''compiler.runtime'' v"
    by (simp add: e settings_of_def)
  ultimately show ?thesis
    using vs by (simp add: apply_runtime_def dict_setitem_again e)
qed

lemma mutated_apply_runtime: "mutated e0 (apply_runtime cn bn e0)"
  by (auto simp: mutated_def apply_runtime_def)

lemma store_rel_refl: "store_rel s s"
  by (simp add: store_rel_def list_all2_refl mutated_refl)

lemma merge_profile_eq:
  "merge_profile s (i, j, k) =
     (let cn = name (compiler_types s ! j);
          bn = name (build_types s ! k);
          oa' = apply_runtime cn bn (os_arch_types s ! i);
          c' = apply_runtime cn bn (compiler_types s ! j);
          b' = apply_runtime cn bn (build_types s ! k)
      in (\<lparr>os_arch_types = (os_arch_types s)[i := oa'],
           compiler_types = (compiler_types s)[j := c'],
           build_types = (build_types s)[k := b']\<rparr>,
          dict_update (dict_update (dict_update [] (settings_of oa')) (settings_of c'))
            (settings_of b'),
          dict_update (dict_update (dict_update [] (env_of (os_arch_types s ! i)))
            (env_of (compiler_types s ! j))) (env_of (build_types s ! k))))"
  by (simp add: merge_profile_def merge_entry_eq Let_def)

lemma list_all2_update_right:
  "list_all2 P xs ys \<Longrightarrow> P (xs ! i) y \<Longrightarrow> list_all2 P xs (ys[i := y])"
  by (cases "i < length ys") (auto simp: list_all2_conv_all_nth nth_list_update)

lemma merge_profile_rel:
  assumes rel: "store_rel s0 s" and v: "valid s0 c"
  shows "snd (merge_profile s c) = snd (merge_profile s0 c)"
    and "store_rel s0 (fst (merge_profile s c))"
proof -
  obtain i j k where c: "c = (i, j, k)"
    by (cases c) auto
  from v c have i: "i < length (os_arch_types s0)" and j: "j < length (compiler_types s0)"
    and k: "k < length (build_types s0)"
    by (auto simp: valid_def)
  from rel have A: "list_all2 mutated (os_arch_types s0) (os_arch_types s)"
    and B: "list_all2 mutated (compiler_types s0) (compiler_types s)"
    and C: "list_all2 mutated (build_types s0) (build_types s)"
    by (auto simp: store_rel_def)
  have mi: "mutated (os_arch_types s0 ! i) (os_arch_types s ! i)"
    using A i by (rule list_all2_nthD)
  have mj: "mutated (compiler_types s0 ! j) (compiler_types s ! j)"
    using B j by (rule list_all2_nthD)
  have mk: "mutated (build_types s0 ! k) (build_types s ! k)"
    using C k by (rule list_all2_nthD)
  show "snd (merge_profile s c) = snd (merge_profile s0 c)"
    unfolding c merge_profile_eq Let_def
    by (simp add: apply_runtime_mutated [OF mi] apply_runtime_mutated [OF mj]
        apply_runtime_mutated [OF mk] mutated_name [OF mj] mutated_name [OF mk]
        mutated_env [OF mi] mutated_env [OF mj] mutated_env [OF mk])
  show "store_rel s0 (fst (merge_profile s c))"
    unfolding c merge_profile_eq Let_def store_rel_def
    by (simp add: apply_runtime_mutated [OF mi] apply_runtime_mutated [OF mj]
        apply_runtime_mutated [OF mk] list_all2_update_right A B C mutated_apply_runtime)
qed

lemma valid_rel: "store_rel s0 s \<Longrightarrow> valid s c = valid s0 c"
  by (cases c) (auto simp: valid_def store_rel_def dest: list_all2_lengthD)

lemma build_profile_rel:
  assumes rel: "store_rel s0 s" and v: "valid s0 c"
  shows "snd (build_profile s c) = snd (build_profile s0 c)"
    and "store_rel s0 (fst (build_profile s c))"
proof -
  obtain i j k where c: "c = (i, j, k)"
    by (cases c) auto
  from v c have i: "i < length (os_arch_types s0)" and j: "j < length (compiler_types s0)"
    and k: "k < length (build_types s0)"
    by (auto simp: valid_def)
  from rel have mi: "mutated (os_arch_types s0 ! i) (os_arch_types s ! i)"
    and mj: "mutated (compiler_types s0 ! j) (compiler_types s ! j)"
    and mk: "mutated (build_types s0 ! k) (build_types s ! k)"
    using i j k by (auto simp: store_rel_def dest: list_all2_nthD)
  show "snd (build_profile s c) = snd (build_profile s0 c)"
    using merge_profile_rel(1) [OF rel v]
    by (simp add: build_profile_def c Let_def mutated_name [OF mi] mutated_name [OF mj]
        mutated_name [OF mk])
  show "store_rel s0 (fst (build_profile s c))"
    using merge_profile_rel(2) [OF rel v]
    by (simp add: build_profile_def c Let_def)
qed

lemma rendered_profiles_rel:
  "store_rel s0 s \<Longrightarrow> \<forall>c\<in>set cs. valid s0 c \<Longrightarrow>
   rendered_profiles cs s = map (\<lambda>c. snd (build_profile s0 c)) cs"
  by (induction cs arbitrary: s) (auto simp: build_profile_rel)

lemma store_after_rel:
  "store_rel s0 s \<Longrightarrow> \<forall>c\<in>set cs. valid s0 c \<Longrightarrow> store_rel s0 (store_after cs s)"
  by (induction cs arbitrary: s) (auto simp: build_profile_rel)

lemma generate_profiles_eq:
  "generate_profiles pp cs (s, st) = (store_after cs s, write_all pp (rendered_profiles cs s) st)"
  by (induction cs arbitrary: s st) (auto simp: write_all_def Let_def)

lemma write_all_Nil: "write_all pp [] st = st"
  by (simp add: write_all_def)

lemma write_all_Cons: "write_all pp (np # nps) st = write_all pp nps (write_profile pp np st)"
  by (simp add: write_all_def)

lemma write_profile_keeps:
  "fs (fst st) p = Some x \<Longrightarrow> fs (fst (write_profile pp np st)) p = Some x"
  by (cases st) (auto simp: write_profile_def Let_def)

lemma write_all_keeps:
  "fs (fst st) p = Some x \<Longrightarrow> fs (fst (write_all pp nps st)) p = Some x"
  by (induction nps arbitrary: st) (auto simp: write_all_Nil write_all_Cons write_profile_keeps)

lemma write_profile_frame:
  "home (fst (write_profile pp np st)) = home (fst st)"
  "remotes (fst (write_profile pp np st)) = remotes (fst st)"
  by (cases st; simp add: write_profile_def Let_def)+

lemma write_all_frame:
  "home (fst (write_all pp nps st)) = home (fst st)"
  "remotes (fst (write_all pp nps st)) = remotes (fst st)"
  by (induction nps arbitrary: st; simp add: write_all_Nil write_all_Cons write_profile_frame)+

lemma written_append: "written (xs @ ys) = written xs @ written ys"
  by (induction xs rule: written.induct) auto

lemma added_append: "added (xs @ ys) = added xs @ added ys"
  by (induction xs rule: added.induct) auto

text \<open>The log of the writes: an extension of the log, whose writes are to fresh paths.\<close>

lemma write_profile_log:
  "\<exists>new. snd (write_profile pp np (w, log)) = log @ new \<and> added new = [] \<and>
     (\<forall>(p, t)\<in>set (written new). fs w p = None \<and> p = path_join pp (fst np) \<and> t = snd np \<and>
        fs (fst (write_profile pp np (w, log))) p = Some (File t))"
  by (auto simp: write_profile_def Let_def)

lemma write_all_log:
  "\<exists>new. snd (write_all pp nps (w, log)) = log @ new \<and> added new = [] \<and>
     (\<forall>(p, t)\<in>set (written new). fs w p = None \<and>
        (\<exists>np\<in>set nps. p = path_join pp (fst np) \<and> t = snd np) \<and>
        fs (fst (write_all pp nps (w, log))) p = Some (File t))"
proof (induction nps arbitrary: w log)
  case Nil
  show ?case by (simp add: write_all_Nil)
next
  case (Cons np nps)
  obtain w1 log1 where st1: "write_profile pp np (w, log) = (w1, log1)"
    by (cases "write_profile pp np (w, log)") auto
  from write_profile_log [of pp np w log] st1 obtain new1 where
    l1: "log1 = log @ new1" and a1: "added new1 = []" and
    p1: "\<forall>(p, t)\<in>set (written new1). fs w p = None \<and> p = path_join pp (fst np) \<and> t = snd np \<and>
           fs w1 p = Some (File t)"
    by auto
  from Cons.IH [of w1 log1] obtain new2 where
    l2: "snd (write_all pp nps (w1, log1)) = log1 @ new2" and a2: "added new2 = []" and
    p2: "\<forall>(p, t)\<in>set (written new2). fs w1 p = None \<and>
           (\<exists>np\<in>set nps. p = path_join pp (fst np) \<and> t = snd np) \<and>
           fs (fst (write_all pp nps (w1, log1))) p = Some (File t)"
    by auto
  have keep: "\<And>p x. fs w1 p = Some x \<Longrightarrow> fs (fst (write_all pp nps (w1, log1))) p = Some x"
    using write_all_keeps [of "(w1, log1)"] by simp
  have old: "\<And>p. fs w1 p = None \<Longrightarrow> fs w p = None"
    using st1 by (auto simp: write_profile_def Let_def split: if_splits)
  show ?case
  proof (intro exI conjI)
    show "snd (write_all pp (np # nps) (w, log)) = log @ (new1 @ new2)"
      using l2 by (simp add: write_all_Cons st1 l1)
    show "added (new1 @ new2) = []"
      by (simp add: added_append a1 a2)
    show "\<forall>(p, t)\<in>set (written (new1 @ new2)). fs w p = None \<and>
        (\<exists>np\<in>set (np # nps). p = path_join pp (fst np) \<and> t = snd np) \<and>
        fs (fst (write_all pp (np # nps) (w, log))) p = Some (File t)"
      using p1 p2 keep old by (fastforce simp: written_append write_all_Cons st1)
  qed
qed

lemma write_all_fresh:
  "distinct (map (\<lambda>np. path_join pp (fst np)) nps) \<Longrightarrow>
   \<forall>np\<in>set nps. fs w (path_join pp (fst np)) = None \<Longrightarrow>
   snd (write_all pp nps (w, log)) =
     log @ map (\<lambda>np. WriteFile (path_join pp (fst np)) (snd np)) nps"
proof (induction nps arbitrary: w log)
  case Nil
  show ?case by (simp add: write_all_Nil)
next
  case (Cons np nps)
  let ?w1 = "w\<lparr>fs := (fs w)(path_join pp (fst np) \<mapsto> File (snd np))\<rparr>"
  let ?log1 = "log @ [WriteFile (path_join pp (fst np)) (snd np)]"
  have st1: "write_profile pp np (w, log) = (?w1, ?log1)"
    using Cons.prems(2) by (simp add: write_profile_def Let_def)
  have "\<forall>x\<in>set nps. fs ?w1 (path_join pp (fst x)) = None"
  proof
    fix x assume x: "x \<in> set nps"
    have "path_join pp (fst np) \<notin> (\<lambda>np. path_join pp (fst np)) ` set nps"
      using Cons.prems(1) by simp
    with x have "path_join pp (fst x) \<noteq> path_join pp (fst np)"
      by (metis image_eqI)
    then show "fs ?w1 (path_join pp (fst x)) = None"
      using Cons.prems(2) x by simp
  qed
  moreover have "distinct (map (\<lambda>np. path_join pp (fst np)) nps)"
    using Cons.prems(1) by simp
  ultimately have "snd (write_all pp nps (?w1, ?log1)) =
      ?log1 @ map (\<lambda>np. WriteFile (path_join pp (fst np)) (snd np)) nps"
    by (rule Cons.IH [rotated])
  then show ?case
    by (simp add: write_all_Cons st1)
qed

section \<open>The run: where it ends, and what it does to the world\<close>

lemma combinations_valid: "c \<in> set (combinations s) \<Longrightarrow> valid s c"
  by (cases c) (auto simp: combinations_def valid_def)

lemma length_combinations:
  "length (combinations s) =
     length (os_arch_types s) * length (compiler_types s) * length (build_types s)"
  by (simp add: combinations_def length_product)

subsection \<open>\<open>os.makedirs\<close>\<close>

text \<open>What is there stays; what is new is a directory of the chain.\<close>

lemma make_missing_keeps:
  "files q = Some x \<Longrightarrow> snd (make_missing ps files) q = Some x"
proof (induction ps arbitrary: files)
  case Nil
  then show ?case by simp
next
  case (Cons p ps)
  show ?case
  proof (cases "files p")
    case None
    with Cons.prems have "(files(p \<mapsto> Dir)) q = Some x"
      by auto
    then have "snd (make_missing ps (files(p \<mapsto> Dir))) q = Some x"
      by (rule Cons.IH)
    with None show ?thesis by simp
  next
    case (Some n)
    show ?thesis
    proof (cases n)
      case Dir
      have "snd (make_missing ps files) q = Some x"
        using Cons.prems by (rule Cons.IH)
      with Some Dir show ?thesis by simp
    next
      case (File t)
      with Some Cons.prems show ?thesis by (cases ps) simp_all
    qed
  qed
qed

lemma make_missing_new:
  "snd (make_missing ps files) q = Some x \<Longrightarrow> files q = None \<Longrightarrow> x = Dir \<and> q \<in> set ps"
proof (induction ps arbitrary: files)
  case Nil
  then show ?case by simp
next
  case (Cons p ps)
  show ?case
  proof (cases "files p")
    case None
    with Cons.prems(1) have after: "snd (make_missing ps (files(p \<mapsto> Dir))) q = Some x"
      by simp
    show ?thesis
    proof (cases "q = p")
      case True
      have "snd (make_missing ps (files(p \<mapsto> Dir))) p = Some Dir"
        by (rule make_missing_keeps) simp
      with after True show ?thesis by simp
    next
      case False
      with Cons.prems(2) have "(files(p \<mapsto> Dir)) q = None"
        by simp
      with after have "x = Dir \<and> q \<in> set ps"
        by (rule Cons.IH)
      then show ?thesis by simp
    qed
  next
    case (Some n)
    show ?thesis
    proof (cases n)
      case Dir
      with Some Cons.prems(1) have "snd (make_missing ps files) q = Some x"
        by simp
      then have "x = Dir \<and> q \<in> set ps"
        using Cons.prems(2) by (rule Cons.IH)
      then show ?thesis by simp
    next
      case (File t)
      with Some Cons.prems show ?thesis by (cases ps) simp_all
    qed
  qed
qed

text \<open>When it does not raise, every path of the chain is a directory.\<close>

lemma make_missing_dirs:
  "fst (make_missing ps files) = None \<Longrightarrow> q \<in> set ps \<Longrightarrow>
     snd (make_missing ps files) q = Some Dir"
proof (induction ps arbitrary: files)
  case Nil
  then show ?case by simp
next
  case (Cons p ps)
  show ?case
  proof (cases "files p")
    case None
    with Cons.prems(1) have ok: "fst (make_missing ps (files(p \<mapsto> Dir))) = None"
      by simp
    show ?thesis
    proof (cases "q = p")
      case True
      have "snd (make_missing ps (files(p \<mapsto> Dir))) p = Some Dir"
        by (rule make_missing_keeps) simp
      with None True show ?thesis by simp
    next
      case False
      with Cons.prems(2) have "q \<in> set ps" by simp
      with ok have "snd (make_missing ps (files(p \<mapsto> Dir))) q = Some Dir"
        by (rule Cons.IH)
      with None show ?thesis by simp
    qed
  next
    case (Some n)
    show ?thesis
    proof (cases n)
      case Dir
      with Some Cons.prems(1) have ok: "fst (make_missing ps files) = None"
        by simp
      show ?thesis
      proof (cases "q = p")
        case True
        have "snd (make_missing ps files) p = Some Dir"
          using Some Dir by (intro make_missing_keeps) simp
        with Some Dir True show ?thesis by simp
      next
        case False
        with Cons.prems(2) have "q \<in> set ps" by simp
        with ok have "snd (make_missing ps files) q = Some Dir"
          by (rule Cons.IH)
        with Some Dir show ?thesis by simp
      qed
    next
      case (File t)
      with Some Cons.prems(1) show ?thesis by (cases ps) simp_all
    qed
  qed
qed

text \<open>It raises exactly when a regular file is on the chain.\<close>

lemma make_missing_raises:
  "fst (make_missing ps files) = None \<longleftrightarrow> (\<forall>q\<in>set ps. \<forall>t. files q \<noteq> Some (File t))"
proof (induction ps arbitrary: files)
  case Nil
  show ?case by simp
next
  case (Cons p ps)
  show ?case
  proof (cases "files p")
    case None
    have "fst (make_missing ps (files(p \<mapsto> Dir))) = None \<longleftrightarrow>
        (\<forall>q\<in>set ps. \<forall>t. (files(p \<mapsto> Dir)) q \<noteq> Some (File t))"
      by (rule Cons.IH)
    also have "\<dots> \<longleftrightarrow> (\<forall>q\<in>set ps. \<forall>t. files q \<noteq> Some (File t))"
      using None by auto
    finally show ?thesis
      using None by simp
  next
    case (Some n)
    show ?thesis
    proof (cases n)
      case Dir
      have "fst (make_missing ps files) = None \<longleftrightarrow>
          (\<forall>q\<in>set ps. \<forall>t. files q \<noteq> Some (File t))"
        by (rule Cons.IH)
      with Some Dir show ?thesis by simp
    next
      case (File t)
      with Some show ?thesis by (cases ps) simp_all
    qed
  qed
qed

text \<open>On a chain of directories it changes nothing.\<close>

lemma make_missing_noop:
  "\<forall>q\<in>set ps. files q = Some Dir \<Longrightarrow> make_missing ps files = (None, files)"
  by (induction ps) simp_all

text \<open>A second call ends as the first one did, and changes nothing.\<close>

lemma make_missing_idem:
  "make_missing ps (snd (make_missing ps files)) = make_missing ps files"
proof (induction ps arbitrary: files)
  case Nil
  show ?case by simp
next
  case (Cons p ps)
  show ?case
  proof (cases "files p")
    case None
    have dir: "snd (make_missing ps (files(p \<mapsto> Dir))) p = Some Dir"
      by (rule make_missing_keeps) simp
    have "make_missing ps (snd (make_missing ps (files(p \<mapsto> Dir)))) =
        make_missing ps (files(p \<mapsto> Dir))"
      by (rule Cons.IH)
    with None dir show ?thesis by simp
  next
    case (Some n)
    show ?thesis
    proof (cases n)
      case Dir
      with Some have dir: "snd (make_missing ps files) p = Some Dir"
        by (intro make_missing_keeps) simp
      have "make_missing ps (snd (make_missing ps files)) = make_missing ps files"
        by (rule Cons.IH)
      with Some Dir dir show ?thesis by simp
    next
      case (File t)
      with Some show ?thesis by (cases ps) simp_all
    qed
  qed
qed

text \<open>The chain of a path: the path is on it, and what is on it is a prefix of the path.\<close>

lemma path_chain_self: "path \<in> set (path_chain path)"
  by (subst path_chain.simps) (simp add: Let_def)

lemma path_chain_prefix: "q \<in> set (path_chain path) \<Longrightarrow> \<exists>k. q = take k path"
proof (induction path rule: path_chain.induct)
  case (1 path)
  show ?case
  proof (cases "dirname path = [] \<or> dirname path = path")
    case True
    with "1.prems" have "q = path"
      by (subst (asm) path_chain.simps) (auto simp: Let_def)
    then have "q = take (length path) path" by simp
    then show ?thesis ..
  next
    case False
    with "1.prems" have "q = path \<or> q \<in> set (path_chain (dirname path))"
      by (subst (asm) path_chain.simps) (auto simp: Let_def)
    then show ?thesis
    proof
      assume "q = path"
      then have "q = take (length path) path" by simp
      then show ?thesis ..
    next
      assume "q \<in> set (path_chain (dirname path))"
      with "1.IH" [OF refl False] obtain k where "q = take k (dirname path)"
        by blast
      then have "q = take (min k (dirlen path)) path"
        by (simp add: dirname_def)
      then show ?thesis ..
    qed
  qed
qed

lemma path_chain_length: "q \<in> set (path_chain path) \<Longrightarrow> length q \<le> length path"
  using path_chain_prefix [of q path] by auto

lemma makedirs_eq:
  "makedirs path (w, log) =
     (fst (make_missing (path_chain path) (fs w)),
      w\<lparr>fs := snd (make_missing (path_chain path) (fs w))\<rparr>,
      log @ [MakeDirs path])"
  by (simp add: makedirs_def split: prod.split)

subsection \<open>The remote\<close>

lemma not_named_iff:
  "filter (\<lambda>x. remote_name x = n) rs = [] \<longleftrightarrow> n \<notin> remote_name ` set rs"
  unfolding filter_empty_conv by (metis image_iff)

lemma register_remote_eq:
  "register_remote (w, log) =
     (if REMOTE \<in> remote_name ` set (remotes w) then (None, w, log)
      else remote_add REMOTE REMOTE_URL (w, log))"
  by (simp add: register_remote_def Let_def not_named_iff)

lemma remote_add_frame:
  "fs (fst (snd (remote_add n url (w, log)))) = fs w"
  "home (fst (snd (remote_add n url (w, log)))) = home w"
  "snd (snd (remote_add n url (w, log))) = log @ [RemoteAdd n url]"
  by (simp_all add: remote_add_def Let_def)

lemma remote_add_raised:
  "fst (remote_add n url (w, log)) \<noteq> None \<Longrightarrow>
     fst (remote_add n url (w, log)) = Some ConanException \<and>
     fst (snd (remote_add n url (w, log))) = w"
  by (simp add: remote_add_def Let_def split: if_splits)

lemma remote_add_done:
  "fst (remote_add n url (w, log)) = None \<Longrightarrow>
     remotes (fst (snd (remote_add n url (w, log)))) =
       remotes w @ [\<lparr>remote_name = n, remote_url = url, verify_ssl = True\<rparr>]"
  by (simp add: remote_add_def Let_def split: if_splits)

lemma remote_add_free:
  "n \<notin> remote_name ` set (remotes w) \<Longrightarrow> url \<notin> remote_url ` set (remotes w) \<Longrightarrow>
     fst (remote_add n url (w, log)) = None"
proof -
  assume "n \<notin> remote_name ` set (remotes w)" and "url \<notin> remote_url ` set (remotes w)"
  moreover from this have "filter (\<lambda>r. remote_url r = url) (remotes w) = []"
    unfolding filter_empty_conv by (metis image_iff)
  ultimately show ?thesis
    by (simp add: remote_add_def Let_def)
qed

lemma register_remote_frame:
  "fs (fst (snd (register_remote (w, log)))) = fs w"
  "home (fst (snd (register_remote (w, log)))) = home w"
  "written (snd (snd (register_remote (w, log)))) = written log"
  by (simp_all add: register_remote_eq remote_add_frame written_append)

text \<open>Whether the step raises depends on the remotes alone.\<close>

lemma register_remote_raises:
  "remotes w' = remotes w \<Longrightarrow>
     fst (register_remote (w', log')) = fst (register_remote (w, log))"
  by (simp add: register_remote_eq remote_add_def Let_def)

text \<open>After the step, raised or not, a second one adds nothing.\<close>

lemma register_remote_named:
  "fst (register_remote (w, log)) = None \<Longrightarrow>
     REMOTE \<in> remote_name ` set (remotes (fst (snd (register_remote (w, log)))))"
proof (cases "REMOTE \<in> remote_name ` set (remotes w)")
  case True
  then show ?thesis by (simp add: register_remote_eq)
next
  case False
  assume "fst (register_remote (w, log)) = None"
  with False have ok: "fst (remote_add REMOTE REMOTE_URL (w, log)) = None"
    by (simp add: register_remote_eq)
  show ?thesis
    using False remote_add_done [OF ok] by (simp add: register_remote_eq)
qed

lemma register_remote_raised:
  "fst (register_remote (w, log)) \<noteq> None \<Longrightarrow>
     REMOTE \<notin> remote_name ` set (remotes w) \<and>
     fst (register_remote (w, log)) = Some ConanException \<and>
     fst (snd (register_remote (w, log))) = w"
  using remote_add_raised [of REMOTE REMOTE_URL w log]
  by (simp add: register_remote_eq split: if_splits)

lemma not_key_iff:
  "platform \<notin> Some ` fst ` set hs \<longleftrightarrow>
     (case platform of None \<Rightarrow> None | Some p \<Rightarrow> map_of hs p) = None"
  by (cases platform) (auto simp: map_of_eq_None_iff)

lemma added_write_all:
  "added (snd (write_all pp nps (w, log))) = added log"
  using write_all_log [of pp nps w log] by (auto simp: added_append)

subsection \<open>The five ways a run ends\<close>

lemma makedirs_parts:
  "fst (makedirs path (w, log)) = fst (make_missing (path_chain path) (fs w))"
  "snd (makedirs path (w, log)) =
     (w\<lparr>fs := snd (make_missing (path_chain path) (fs w))\<rparr>, log @ [MakeDirs path])"
  by (simp_all add: makedirs_eq)

lemma Main_on_eq:
  "Main_on hs bts argv w =
     (case parse_args argv of
        Exit status \<Rightarrow> (Inl (SystemExit status), w, [])
      | Namespace platform \<Rightarrow>
          (case fst (makedirs (profiles_dir w) (w, [])) of
             Some e \<Rightarrow> (Inl e, snd (makedirs (profiles_dir w) (w, [])))
           | None \<Rightarrow>
               (case (case platform of None \<Rightarrow> None | Some p \<Rightarrow> map_of hs p) of
                  None \<Rightarrow> (Inl (KeyError platform), snd (makedirs (profiles_dir w) (w, [])))
                | Some pl \<Rightarrow>
                    (case fst (register_remote (snd (makedirs (profiles_dir w) (w, [])))) of
                       Some e \<Rightarrow>
                         (Inl e, snd (register_remote (snd (makedirs (profiles_dir w) (w, [])))))
                     | None \<Rightarrow>
                         (Inr (),
                          write_all (profiles_dir w)
                            (map (\<lambda>c. snd (build_profile (store_of pl bts) c))
                               (combinations (store_of pl bts)))
                            (snd (register_remote
                                    (snd (makedirs (profiles_dir w) (w, []))))))))))"
proof -
  have r: "\<And>pl. rendered_profiles (combinations (store_of pl bts)) (store_of pl bts) =
      map (\<lambda>c. snd (build_profile (store_of pl bts) c)) (combinations (store_of pl bts))"
    by (rule rendered_profiles_rel) (auto simp: store_rel_refl combinations_valid)
  show ?thesis
    unfolding Main_on_def Let_def profiles_dir_def [symmetric]
    by (auto simp: generate_profiles_eq r [unfolded store_of_def] store_of_def
        split: parsed.split prod.split option.split)
qed

text \<open>
  A run ends in the parser, in \<open>os.makedirs\<close>, at the lookup, in \<open>remote_add\<close>, or after
  the loop over the platform's store.
\<close>

lemma Main_on_cases:
  obtains
    (exit) status where "parse_args argv = Exit status"
      "Main_on hs bts argv w = (Inl (SystemExit status), w, [])"
  | (nodir) platform e where "parse_args argv = Namespace platform"
      "fst (make_missing (path_chain (profiles_dir w)) (fs w)) = Some e"
      "Main_on hs bts argv w =
         (Inl e, w\<lparr>fs := snd (make_missing (path_chain (profiles_dir w)) (fs w))\<rparr>,
          [MakeDirs (profiles_dir w)])"
  | (invalid) platform where "parse_args argv = Namespace platform"
      "fst (make_missing (path_chain (profiles_dir w)) (fs w)) = None"
      "platform \<notin> Some ` fst ` set hs"
      "Main_on hs bts argv w =
         (Inl (KeyError platform),
          w\<lparr>fs := snd (make_missing (path_chain (profiles_dir w)) (fs w))\<rparr>,
          [MakeDirs (profiles_dir w)])"
  | (noremote) p pl where "parse_args argv = Namespace (Some p)" "map_of hs p = Some pl"
      "fst (make_missing (path_chain (profiles_dir w)) (fs w)) = None"
      "fst (register_remote (w, [])) \<noteq> None"
      "Main_on hs bts argv w =
         (Inl ConanException,
          w\<lparr>fs := snd (make_missing (path_chain (profiles_dir w)) (fs w))\<rparr>,
          [MakeDirs (profiles_dir w), RemoteAdd REMOTE REMOTE_URL])"
  | (valid) p pl where "parse_args argv = Namespace (Some p)" "map_of hs p = Some pl"
      "fst (make_missing (path_chain (profiles_dir w)) (fs w)) = None"
      "fst (register_remote (w, [])) = None"
      "Main_on hs bts argv w =
         (Inr (),
          write_all (profiles_dir w)
            (map (\<lambda>c. snd (build_profile (store_of pl bts) c)) (combinations (store_of pl bts)))
            (snd (register_remote
                    (w\<lparr>fs := snd (make_missing (path_chain (profiles_dir w)) (fs w))\<rparr>,
                     [MakeDirs (profiles_dir w)]))))"
proof (cases "parse_args argv")
  case (Exit status)
  then have "Main_on hs bts argv w = (Inl (SystemExit status), w, [])"
    by (simp add: Main_on_eq)
  with Exit show ?thesis by (rule exit)
next
  case (Namespace platform)
  let ?pp = "profiles_dir w"
  let ?mm = "make_missing (path_chain ?pp) (fs w)"
  let ?w1 = "w\<lparr>fs := snd ?mm\<rparr>"
  show ?thesis
  proof (cases "fst ?mm")
    case (Some e)
    with Namespace have "Main_on hs bts argv w = (Inl e, ?w1, [MakeDirs ?pp])"
      by (simp add: Main_on_eq makedirs_parts)
    with Namespace Some show ?thesis by (rule nodir)
  next
    case None
    show ?thesis
    proof (cases "platform \<in> Some ` fst ` set hs")
      case False
      then have "(case platform of None \<Rightarrow> None | Some p \<Rightarrow> map_of hs p) = None"
        by (simp only: not_key_iff)
      with Namespace None have
        "Main_on hs bts argv w = (Inl (KeyError platform), ?w1, [MakeDirs ?pp])"
        by (simp add: Main_on_eq makedirs_parts)
      with Namespace None False show ?thesis by (rule invalid)
    next
      case True
      then obtain p where p: "platform = Some p" and "p \<in> fst ` set hs"
        by auto
      then obtain pl where pl: "map_of hs p = Some pl"
        by (cases "map_of hs p") (auto simp: map_of_eq_None_iff)
      have parsed: "parse_args argv = Namespace (Some p)"
        using Namespace p by simp
      have same: "fst (register_remote (?w1, [MakeDirs ?pp])) = fst (register_remote (w, []))"
        by (rule register_remote_raises) simp
      show ?thesis
      proof (cases "fst (register_remote (w, []))")
        case ok: None
        with same have "fst (register_remote (?w1, [MakeDirs ?pp])) = None"
          by simp
        with parsed pl None have "Main_on hs bts argv w =
            (Inr (),
             write_all ?pp
               (map (\<lambda>c. snd (build_profile (store_of pl bts) c)) (combinations (store_of pl bts)))
               (snd (register_remote (?w1, [MakeDirs ?pp]))))"
          by (simp add: Main_on_eq makedirs_parts)
        with parsed pl None ok show ?thesis by (rule valid)
      next
        case (Some e)
        with same have raised: "fst (register_remote (?w1, [MakeDirs ?pp])) \<noteq> None"
          by simp
        from register_remote_raised [OF raised]
        have absent: "REMOTE \<notin> remote_name ` set (remotes ?w1)"
          and e: "fst (register_remote (?w1, [MakeDirs ?pp])) = Some ConanException"
          and w: "fst (snd (register_remote (?w1, [MakeDirs ?pp]))) = ?w1"
          by blast+
        have "snd (snd (register_remote (?w1, [MakeDirs ?pp]))) =
            [MakeDirs ?pp, RemoteAdd REMOTE REMOTE_URL]"
          using absent by (simp add: register_remote_eq remote_add_frame)
        with w have "snd (register_remote (?w1, [MakeDirs ?pp])) =
            (?w1, [MakeDirs ?pp, RemoteAdd REMOTE REMOTE_URL])"
          by (metis prod.collapse)
        with parsed pl None e have "Main_on hs bts argv w =
            (Inl ConanException, ?w1, [MakeDirs ?pp, RemoteAdd REMOTE REMOTE_URL])"
          by (simp add: Main_on_eq makedirs_parts)
        moreover have "fst (register_remote (w, [])) \<noteq> None"
          using Some by simp
        ultimately show ?thesis
          using parsed pl None by (intro noremote)
      qed
    qed
  qed
qed

subsection \<open>The files a run writes\<close>

lemma write_all_present:
  "\<forall>np\<in>set nps. fs (fst (write_all pp nps st)) (path_join pp (fst np)) \<noteq> None"
proof (induction nps arbitrary: st)
  case Nil
  show ?case by simp
next
  case (Cons np nps)
  have "fs (fst (write_profile pp np st)) (path_join pp (fst np)) \<noteq> None"
    by (cases st) (auto simp: write_profile_def Let_def)
  then obtain x where "fs (fst (write_profile pp np st)) (path_join pp (fst np)) = Some x"
    by auto
  then have "fs (fst (write_all pp nps (write_profile pp np st))) (path_join pp (fst np)) = Some x"
    by (rule write_all_keeps)
  with Cons.IH [of "write_profile pp np st"] show ?case
    by (simp add: write_all_Cons)
qed

lemma write_all_skips:
  "\<forall>np\<in>set nps. fs (fst st) (path_join pp (fst np)) \<noteq> None \<Longrightarrow> write_all pp nps st = st"
proof (induction nps)
  case Nil
  show ?case by (simp add: write_all_Nil)
next
  case (Cons np nps)
  then have "write_profile pp np st = st"
    by (cases st) (auto simp: write_profile_def Let_def)
  with Cons show ?case
    by (simp add: write_all_Cons)
qed

text \<open>
  What a run does to the file system, whatever the tables and however it ends: what is
  there stays, and a file it writes is at a path where nothing was.
\<close>

lemma Main_on_fs:
  assumes run: "Main_on hs bts argv w = (r, w', log)"
  shows "home w' = home w"
    and "\<And>p x. fs w p = Some x \<Longrightarrow> fs w' p = Some x"
    and "\<And>p t. (p, t) \<in> set (written log) \<Longrightarrow> fs w p = None \<and> fs w' p = Some (File t)"
proof -
  let ?pp = "profiles_dir w"
  let ?mm = "make_missing (path_chain ?pp) (fs w)"
  let ?w1 = "w\<lparr>fs := snd ?mm\<rparr>"
  have keep1: "\<And>p x. fs w p = Some x \<Longrightarrow> fs ?w1 p = Some x"
    by (simp add: make_missing_keeps)
  have "home w' = home w \<and> (\<forall>p x. fs w p = Some x \<longrightarrow> fs w' p = Some x) \<and>
      (\<forall>p t. (p, t) \<in> set (written log) \<longrightarrow> fs w p = None \<and> fs w' p = Some (File t))"
  proof (cases rule: Main_on_cases [of argv hs bts w])
    case (exit status)
    with run show ?thesis by auto
  next
    case (nodir platform e)
    with run have "w' = ?w1" and "log = [MakeDirs ?pp]"
      by simp_all
    with keep1 show ?thesis by simp
  next
    case (invalid platform)
    with run have "w' = ?w1" and "log = [MakeDirs ?pp]"
      by simp_all
    with keep1 show ?thesis by simp
  next
    case (noremote p pl)
    with run have "w' = ?w1" and "log = [MakeDirs ?pp, RemoteAdd REMOTE REMOTE_URL]"
      by simp_all
    with keep1 show ?thesis by simp
  next
    case (valid p pl)
    let ?nps = "map (\<lambda>c. snd (build_profile (store_of pl bts) c)) (combinations (store_of pl bts))"
    obtain w2 log2 where st2: "snd (register_remote (?w1, [MakeDirs ?pp])) = (w2, log2)"
      by (cases "snd (register_remote (?w1, [MakeDirs ?pp]))") auto
    have fs2: "fs w2 = snd ?mm" and home2: "home w2 = home w" and wr2: "written log2 = []"
      using register_remote_frame [of ?w1 "[MakeDirs ?pp]"] by (simp_all add: st2)
    from valid(5) run st2 have "write_all ?pp ?nps (w2, log2) = (w', log)"
      by simp
    then have w': "w' = fst (write_all ?pp ?nps (w2, log2))"
      and log: "log = snd (write_all ?pp ?nps (w2, log2))"
      by simp_all
    from write_all_log [of ?pp ?nps w2 log2] obtain new where
      new: "snd (write_all ?pp ?nps (w2, log2)) = log2 @ new" and
      props: "\<forall>(p, t)\<in>set (written new). fs w2 p = None \<and>
        (\<exists>np\<in>set ?nps. p = path_join ?pp (fst np) \<and> t = snd np) \<and>
        fs (fst (write_all ?pp ?nps (w2, log2))) p = Some (File t)"
      by blast
    have keep: "\<And>p x. fs w2 p = Some x \<Longrightarrow> fs w' p = Some x"
      unfolding w' using write_all_keeps [of "(w2, log2)"] by simp
    have a: "home w' = home w"
      unfolding w' using write_all_frame(1) [of ?pp ?nps "(w2, log2)"] home2 by simp
    have c: "\<forall>p x. fs w p = Some x \<longrightarrow> fs w' p = Some x"
      using keep keep1 by (simp add: fs2)
    have d: "\<forall>p t. (p, t) \<in> set (written log) \<longrightarrow> fs w p = None \<and> fs w' p = Some (File t)"
    proof (intro allI impI)
      fix p t assume "(p, t) \<in> set (written log)"
      then have "(p, t) \<in> set (written new)"
        by (simp add: log new written_append wr2)
      with props have none2: "fs w2 p = None" and there: "fs w' p = Some (File t)"
        unfolding w' by auto
      have "fs w p = None"
      proof (cases "fs w p")
        case None
        then show ?thesis .
      next
        case (Some x)
        then have "fs ?w1 p = Some x" by (rule keep1)
        with none2 show ?thesis by (simp add: fs2)
      qed
      then show "fs w p = None \<and> fs w' p = Some (File t)"
        using there by simp
    qed
    from a c d show ?thesis by blast
  qed
  then show "home w' = home w"
    and "\<And>p x. fs w p = Some x \<Longrightarrow> fs w' p = Some x"
    and "\<And>p t. (p, t) \<in> set (written log) \<Longrightarrow> fs w p = None \<and> fs w' p = Some (File t)"
    by blast+
qed

lemma profiles_dir_home: "home w' = home w \<Longrightarrow> profiles_dir w' = profiles_dir w"
  by (simp add: profiles_dir_def)

text \<open>A second run with the same tables ends as the first, and changes no path.\<close>

lemma Main_on_again:
  assumes run1: "Main_on hs bts argv w0 = (r1, w1, log1)"
    and run2: "Main_on hs bts argv w1 = (r2, w2, log2)"
  shows "written log2 = [] \<and> fs w2 = fs w1"
proof -
  let ?pp = "profiles_dir w0"
  let ?mm = "make_missing (path_chain ?pp) (fs w0)"
  let ?w = "w0\<lparr>fs := snd ?mm\<rparr>"
  have home1: "home w1 = home w0"
    using Main_on_fs(1) [OF run1] .
  have pp: "profiles_dir w1 = ?pp"
    using home1 by (rule profiles_dir_home)
  show ?thesis
  proof (cases rule: Main_on_cases [of argv hs bts w0])
    case (exit status)
    with run1 have "w1 = w0" by simp
    with exit run2 show ?thesis by simp
  next
    case (nodir platform e)
    with run1 have w1: "w1 = ?w" by simp
    have "make_missing (path_chain ?pp) (fs w1) = ?mm"
      unfolding w1 by (simp add: make_missing_idem)
    then have "makedirs ?pp (w1, []) = (Some e, w1, [MakeDirs ?pp])"
      using nodir(2) by (simp add: makedirs_eq w1)
    with nodir(1) have "Main_on hs bts argv w1 = (Inl e, w1, [MakeDirs ?pp])"
      by (simp add: Main_on_eq pp)
    with run2 show ?thesis by auto
  next
    case (invalid platform)
    with run1 have w1: "w1 = ?w" by simp
    have "make_missing (path_chain ?pp) (fs w1) = ?mm"
      unfolding w1 by (simp add: make_missing_idem)
    then have "makedirs ?pp (w1, []) = (None, w1, [MakeDirs ?pp])"
      using invalid(2) by (simp add: makedirs_eq w1)
    moreover have "(case platform of None \<Rightarrow> None | Some p \<Rightarrow> map_of hs p) = None"
      using invalid(3) by (simp only: not_key_iff)
    ultimately have "Main_on hs bts argv w1 = (Inl (KeyError platform), w1, [MakeDirs ?pp])"
      using invalid(1) by (simp add: Main_on_eq pp)
    with run2 show ?thesis by auto
  next
    case (noremote p pl)
    with run1 have w1: "w1 = ?w" by simp
    have "make_missing (path_chain ?pp) (fs w1) = ?mm"
      unfolding w1 by (simp add: make_missing_idem)
    then have mk: "makedirs ?pp (w1, []) = (None, w1, [MakeDirs ?pp])"
      using noremote(3) by (simp add: makedirs_eq w1)
    have "fst (register_remote (w1, [MakeDirs ?pp])) = fst (register_remote (w0, []))"
      by (rule register_remote_raises) (simp add: w1)
    with noremote(4) obtain e where e: "fst (register_remote (w1, [MakeDirs ?pp])) = Some e"
      by auto
    with mk noremote(1,2) have "Main_on hs bts argv w1 =
        (Inl e, snd (register_remote (w1, [MakeDirs ?pp])))"
      by (simp add: Main_on_eq pp)
    with run2 have "(w2, log2) = snd (register_remote (w1, [MakeDirs ?pp]))"
      by simp
    then have "w2 = fst (snd (register_remote (w1, [MakeDirs ?pp])))"
      and "log2 = snd (snd (register_remote (w1, [MakeDirs ?pp])))"
      by (metis fst_conv, metis snd_conv)
    then show ?thesis
      by (simp add: register_remote_frame)
  next
    case (valid p pl)
    let ?nps = "map (\<lambda>c. snd (build_profile (store_of pl bts) c)) (combinations (store_of pl bts))"
    let ?st = "snd (register_remote (?w, [MakeDirs ?pp]))"
    from valid(5) run1 have "write_all ?pp ?nps ?st = (w1, log1)"
      by simp
    then have w1: "w1 = fst (write_all ?pp ?nps ?st)"
      by simp
    have st: "?st = (fst ?st, snd ?st)"
      by simp
    have fs_st: "fs (fst ?st) = snd ?mm"
      using register_remote_frame(1) [of ?w "[MakeDirs ?pp]"] by simp
    have dirs: "\<forall>q\<in>set (path_chain ?pp). fs w1 q = Some Dir"
    proof
      fix q assume "q \<in> set (path_chain ?pp)"
      with valid(3) have "snd ?mm q = Some Dir"
        by (rule make_missing_dirs)
      then have "fs (fst ?st) q = Some Dir"
        by (simp only: fs_st)
      then show "fs w1 q = Some Dir"
        unfolding w1 by (rule write_all_keeps)
    qed
    then have "make_missing (path_chain ?pp) (fs w1) = (None, fs w1)"
      by (rule make_missing_noop)
    then have mk: "makedirs ?pp (w1, []) = (None, w1, [MakeDirs ?pp])"
      by (simp add: makedirs_eq)
    have "fst (register_remote (?w, [MakeDirs ?pp])) = fst (register_remote (w0, []))"
      by (rule register_remote_raises) simp
    with valid(4) have "fst (register_remote (?w, [MakeDirs ?pp])) = None"
      by simp
    then have "REMOTE \<in> remote_name ` set (remotes (fst ?st))"
      by (rule register_remote_named)
    moreover have "remotes w1 = remotes (fst ?st)"
      unfolding w1 by (rule write_all_frame(2))
    ultimately have named: "REMOTE \<in> remote_name ` set (remotes w1)"
      by simp
    then have reg: "register_remote (w1, [MakeDirs ?pp]) = (None, w1, [MakeDirs ?pp])"
      by (simp add: register_remote_eq)
    have present: "\<forall>np\<in>set ?nps. fs w1 (path_join ?pp (fst np)) \<noteq> None"
      unfolding w1 by (rule write_all_present)
    then have "\<forall>np\<in>set ?nps. fs (fst (w1, [MakeDirs ?pp])) (path_join ?pp (fst np)) \<noteq> None"
      by simp
    then have "write_all ?pp ?nps (w1, [MakeDirs ?pp]) = (w1, [MakeDirs ?pp])"
      by (rule write_all_skips)
    with mk reg valid(1,2) have "Main_on hs bts argv w1 = (Inr (), w1, [MakeDirs ?pp])"
      by (simp add: Main_on_eq pp)
    with run2 show ?thesis by auto
  qed
qed

text \<open>A file a run writes is the profile of a combination of the platform's store.\<close>

lemma Main_on_written:
  assumes run: "Main_on hs bts argv w = (r, w', log)"
    and wr: "(path, text) \<in> set (written log)"
  shows "\<exists>p pl. parse_args argv = Namespace (Some p) \<and> map_of hs p = Some pl \<and>
           (\<exists>c\<in>set (combinations (store_of pl bts)).
              path = path_join (profiles_dir w) (fst (snd (build_profile (store_of pl bts) c))) \<and>
              text = snd (snd (build_profile (store_of pl bts) c)))"
proof (cases rule: Main_on_cases [of argv hs bts w])
  case (exit status)
  with run wr show ?thesis by auto
next
  case (nodir platform e)
  with run wr show ?thesis by auto
next
  case (invalid platform)
  with run wr show ?thesis by auto
next
  case (noremote p pl)
  with run wr show ?thesis by auto
next
  case (valid p pl)
  let ?pp = "profiles_dir w"
  let ?s = "store_of pl bts"
  let ?nps = "map (\<lambda>c. snd (build_profile ?s c)) (combinations ?s)"
  let ?w1 = "w\<lparr>fs := snd (make_missing (path_chain ?pp) (fs w))\<rparr>"
  obtain w2 log2 where st2: "snd (register_remote (?w1, [MakeDirs ?pp])) = (w2, log2)"
    by (cases "snd (register_remote (?w1, [MakeDirs ?pp]))") auto
  have wr2: "written log2 = []"
    using register_remote_frame(3) [of ?w1 "[MakeDirs ?pp]"] by (simp add: st2)
  from valid(5) run st2 have "write_all ?pp ?nps (w2, log2) = (w', log)"
    by simp
  then have log: "log = snd (write_all ?pp ?nps (w2, log2))"
    by simp
  from write_all_log [of ?pp ?nps w2 log2] obtain new where
    new: "snd (write_all ?pp ?nps (w2, log2)) = log2 @ new" and
    props: "\<forall>(p, t)\<in>set (written new). fs w2 p = None \<and>
      (\<exists>np\<in>set ?nps. p = path_join ?pp (fst np) \<and> t = snd np) \<and>
      fs (fst (write_all ?pp ?nps (w2, log2))) p = Some (File t)"
    by blast
  from wr have "(path, text) \<in> set (written new)"
    by (simp add: log new written_append wr2)
  with props obtain np where "np \<in> set ?nps" and "path = path_join ?pp (fst np)"
    and "text = snd np"
    by blast
  then obtain c where "c \<in> set (combinations ?s)"
    and "path = path_join ?pp (fst (snd (build_profile ?s c)))"
    and "text = snd (snd (build_profile ?s c))"
    by auto
  with valid(1,2) show ?thesis
    by blast
qed

subsection \<open>The lookup of the platform\<close>





text \<open>
  C9. The profiles directory is made before the platform is looked up. When
  \<open>parse_args\<close> accepts the command line, the platform is missing or is no key of the
  table, and no regular file is at the profiles path or at a directory on the way to
  it, the run ends in the \<open>KeyError\<close> of the lookup and by then the directory exists: the
  one call that changed the world is \<open>makedirs\<close>, everything that was there is as it
  was, what is new is a directory on the way to the profiles path, no file has been
  written and no remote added.
\<close>

theorem profiles_dir_made_before_lookup:
  assumes "parse_args argv = Namespace platform"
    and "platform \<notin> Some ` fst ` set HOST_SETTINGS"
    and "\<forall>q\<in>set (path_chain (profiles_dir w)). \<forall>t. fs w q \<noteq> Some (File t)"
  shows "fst (Main argv w) = Inl (KeyError platform) \<and>
         snd (snd (Main argv w)) = [MakeDirs (profiles_dir w)] \<and>
         fs (fst (snd (Main argv w))) (profiles_dir w) = Some Dir \<and>
         (\<forall>p x. fs w p = Some x \<longrightarrow> fs (fst (snd (Main argv w))) p = Some x) \<and>
         (\<forall>p. fs w p = None \<and> fs (fst (snd (Main argv w))) p \<noteq> None \<longrightarrow>
              fs (fst (snd (Main argv w))) p = Some Dir \<and>
              p \<in> set (path_chain (profiles_dir w))) \<and>
         remotes (fst (snd (Main argv w))) = remotes w \<and>
         written (snd (snd (Main argv w))) = [] \<and>
         added (snd (snd (Main argv w))) = []"
proof -
  let ?pp = "profiles_dir w"
  let ?mm = "make_missing (path_chain ?pp) (fs w)"
  have ok: "fst ?mm = None"
    using assms(3) by (simp only: make_missing_raises)
  have "(case platform of None \<Rightarrow> None | Some p \<Rightarrow> map_of HOST_SETTINGS p) = None"
    using assms(2) by (simp only: not_key_iff)
  with assms(1) ok have run: "Main argv w =
      (Inl (KeyError platform), w\<lparr>fs := snd ?mm\<rparr>, [MakeDirs ?pp])"
    unfolding Main_def by (simp add: Main_on_eq makedirs_parts)
  have dir: "snd ?mm ?pp = Some Dir"
    using ok path_chain_self by (rule make_missing_dirs)
  have keep: "\<forall>p x. fs w p = Some x \<longrightarrow> snd ?mm p = Some x"
    by (simp add: make_missing_keeps)
  have new: "\<forall>p. fs w p = None \<and> snd ?mm p \<noteq> None \<longrightarrow>
      snd ?mm p = Some Dir \<and> p \<in> set (path_chain ?pp)"
    using make_missing_new [of "path_chain ?pp" "fs w"] by auto
  from dir keep new show ?thesis
    by (simp add: run)
qed

theorem profiles_dir_made_before_lookup_witness:
  "parse_args [''--platform'', ''Darwin''] = Namespace (Some ''Darwin'') \<and>
   Some ''Darwin'' \<notin> Some ` fst ` set HOST_SETTINGS \<and>
   fs fresh_world ''/home/u/.conan'' = None \<and>
   fs fresh_world ''/home/u/.conan/profiles'' = None \<and>
   fst (Main [''--platform'', ''Darwin''] fresh_world) = Inl (KeyError (Some ''Darwin'')) \<and>
   snd (snd (Main [''--platform'', ''Darwin''] fresh_world)) =
     [MakeDirs ''/home/u/.conan/profiles''] \<and>
   fs (fst (snd (Main [''--platform'', ''Darwin''] fresh_world))) ''/home/u/.conan/profiles'' =
     Some Dir \<and>
   fs (fst (snd (Main [''--platform'', ''Darwin''] fresh_world))) ''/home/u/.conan'' =
     Some Dir \<and>
   parse_args [] = Namespace None \<and>
   fs (fst (snd (Main [] fresh_world))) ''/home/u/.conan/profiles'' = Some Dir"
proof -
  have a: "parse_args [''--platform'', ''Darwin''] = Namespace (Some ''Darwin'')"
    and a': "parse_args [] = Namespace None"
    by code_simp+
  have b: "Some ''Darwin'' \<notin> Some ` fst ` set HOST_SETTINGS"
    by (simp add: HOST_SETTINGS_def)
  have b': "None \<notin> Some ` fst ` set HOST_SETTINGS"
    by auto
  have "fst (make_missing (path_chain (profiles_dir fresh_world)) (fs fresh_world)) = None"
    by code_simp
  then have c: "\<forall>q\<in>set (path_chain (profiles_dir fresh_world)). \<forall>t.
      fs fresh_world q \<noteq> Some (File t)"
    by (simp only: make_missing_raises)
  have d: "profiles_dir fresh_world = ''/home/u/.conan/profiles''"
    by (simp add: profiles_dir_def path_join_def fresh_world_def)
  have e: "fs fresh_world ''/home/u/.conan'' = None"
    "fs fresh_world ''/home/u/.conan/profiles'' = None"
    by (simp_all add: fresh_world_def)
  note run = profiles_dir_made_before_lookup [OF a b c, unfolded d]
  note run' = profiles_dir_made_before_lookup [OF a' b' c, unfolded d]
  have g: "fs (fst (snd (Main [''--platform'', ''Darwin''] fresh_world))) ''/home/u/.conan'' =
      Some Dir"
    by code_simp
  show ?thesis
    using a a' b e g run [THEN conjunct1] run [THEN conjunct2, THEN conjunct1]
      run [THEN conjunct2, THEN conjunct2, THEN conjunct1]
      run' [THEN conjunct2, THEN conjunct2, THEN conjunct1]
    by (intro conjI)
qed

text \<open>
  C9, as the specification has it, fails for a command line that \<open>parse_args\<close> rejects
  and for a regular file in the place of the directory: after \<open>-p\<close> without its value
  nothing is at the profiles path, and with a file there and a platform that is no key
  the file is still there.
\<close>

theorem profiles_dir_not_made:
  "fst (Main [''-p''] fresh_world) = Inl (SystemExit 2) \<and>
   fs (fst (snd (Main [''-p''] fresh_world))) ''/home/u/.conan/profiles'' = None \<and>
   fst (Main [''-p'', ''Darwin''] blocked_world) =
     Inl (FileExistsError ''/home/u/.conan/profiles'') \<and>
   fs (fst (snd (Main [''-p'', ''Darwin''] blocked_world))) ''/home/u/.conan/profiles'' =
     Some (File ''x'')"
  by code_simp




subsection \<open>The remote step\<close>

text \<open>
  C5. The remote step calls \<open>remote_add\<close>, with the name \<open>artyjay\<close> and its URL, exactly
  when no remote of the client's list has that name, and then once. When such a remote
  is listed the step changes nothing, logs no call and raises nothing. When none is, the
  step is that one call: it leaves the files alone, it leaves the remotes as they were
  when the call raises, and when no listed remote holds the URL either it does not
  raise and the remote is added last. A whole run calls \<open>remote_add\<close> exactly when it
  gets to the step (the command line names a platform of the table and no regular file
  is in the way of the profiles directory) and no listed remote has the name.
\<close>

theorem remote_added_iff_absent:
  "added (snd (snd (register_remote (w, [])))) =
     (if REMOTE \<in> remote_name ` set (remotes w) then [] else [(REMOTE, REMOTE_URL)]) \<and>
   (REMOTE \<in> remote_name ` set (remotes w) \<longrightarrow> register_remote (w, log) = (None, w, log)) \<and>
   (REMOTE \<notin> remote_name ` set (remotes w) \<longrightarrow>
      register_remote (w, log) = remote_add REMOTE REMOTE_URL (w, log)) \<and>
   fs (fst (snd (register_remote (w, log)))) = fs w \<and>
   (fst (register_remote (w, log)) \<noteq> None \<longrightarrow>
      remotes (fst (snd (register_remote (w, log)))) = remotes w) \<and>
   (REMOTE \<notin> remote_name ` set (remotes w) \<and> REMOTE_URL \<notin> remote_url ` set (remotes w) \<longrightarrow>
      fst (register_remote (w, log)) = None \<and>
      remotes (fst (snd (register_remote (w, log)))) =
        remotes w @ [\<lparr>remote_name = REMOTE, remote_url = REMOTE_URL, verify_ssl = True\<rparr>]) \<and>
   added (snd (snd (Main argv w))) =
     (if (\<exists>p. parse_args argv = Namespace (Some p) \<and> p \<in> fst ` set HOST_SETTINGS) \<and>
         (\<forall>q\<in>set (path_chain (profiles_dir w)). \<forall>t. fs w q \<noteq> Some (File t)) \<and>
         REMOTE \<notin> remote_name ` set (remotes w)
      then [(REMOTE, REMOTE_URL)] else [])"
proof (intro conjI impI)
  show "added (snd (snd (register_remote (w, [])))) =
     (if REMOTE \<in> remote_name ` set (remotes w) then [] else [(REMOTE, REMOTE_URL)])"
    by (simp add: register_remote_eq remote_add_frame)
  show "REMOTE \<in> remote_name ` set (remotes w) \<Longrightarrow> register_remote (w, log) = (None, w, log)"
    by (simp add: register_remote_eq)
  show "REMOTE \<notin> remote_name ` set (remotes w) \<Longrightarrow>
      register_remote (w, log) = remote_add REMOTE REMOTE_URL (w, log)"
    by (simp add: register_remote_eq)
  show "fs (fst (snd (register_remote (w, log)))) = fs w"
    by (rule register_remote_frame)
  show "fst (register_remote (w, log)) \<noteq> None \<Longrightarrow>
      remotes (fst (snd (register_remote (w, log)))) = remotes w"
    using register_remote_raised [of w log] by simp
next
  assume free: "REMOTE \<notin> remote_name ` set (remotes w) \<and>
      REMOTE_URL \<notin> remote_url ` set (remotes w)"
  then have ok: "fst (remote_add REMOTE REMOTE_URL (w, log)) = None"
    by (intro remote_add_free) simp_all
  with free show "fst (register_remote (w, log)) = None"
    by (simp add: register_remote_eq)
  from free remote_add_done [OF ok]
  show "remotes (fst (snd (register_remote (w, log)))) =
      remotes w @ [\<lparr>remote_name = REMOTE, remote_url = REMOTE_URL, verify_ssl = True\<rparr>]"
    by (simp add: register_remote_eq)
next
  let ?pp = "profiles_dir w"
  let ?mm = "make_missing (path_chain ?pp) (fs w)"
  let ?w1 = "w\<lparr>fs := snd ?mm\<rparr>"
  let ?free = "\<forall>q\<in>set (path_chain (profiles_dir w)). \<forall>t. fs w q \<noteq> Some (File t)"
  let ?key = "\<exists>p. parse_args argv = Namespace (Some p) \<and> p \<in> fst ` set HOST_SETTINGS"
  have key: "\<And>p pl. parse_args argv = Namespace (Some p) \<Longrightarrow>
      map_of HOST_SETTINGS p = Some pl \<Longrightarrow> ?key"
  proof -
    fix p pl assume "parse_args argv = Namespace (Some p)" and "map_of HOST_SETTINGS p = Some pl"
    moreover from this have "(p, pl) \<in> set HOST_SETTINGS"
      by (intro map_of_SomeD)
    then have "p \<in> fst ` set HOST_SETTINGS"
      by (metis fst_conv image_eqI)
    ultimately show ?key by blast
  qed
  show "added (snd (snd (Main argv w))) =
     (if ?key \<and> ?free \<and> REMOTE \<notin> remote_name ` set (remotes w)
      then [(REMOTE, REMOTE_URL)] else [])"
  proof (cases rule: Main_on_cases [of argv HOST_SETTINGS BUILD_TYPES w])
    case (exit status)
    then show ?thesis by (simp add: Main_def)
  next
    case (nodir platform e)
    then have "\<not> ?free"
      using make_missing_raises [of "path_chain ?pp" "fs w"] by simp
    with nodir(3) show ?thesis by (simp add: Main_def)
  next
    case (invalid platform)
    have "\<not> ?key"
    proof
      assume ?key
      then obtain p where "parse_args argv = Namespace (Some p)" and "p \<in> fst ` set HOST_SETTINGS"
        by blast
      with invalid(1,3) show False by auto
    qed
    with invalid(4) show ?thesis by (simp add: Main_def)
  next
    case (noremote p pl)
    have k: ?key using noremote(1,2) by (rule key)
    have f: ?free using noremote(3) by (simp only: make_missing_raises)
    have "REMOTE \<notin> remote_name ` set (remotes w)"
      using register_remote_raised [OF noremote(4)] by simp
    with k f noremote(5) show ?thesis by (simp add: Main_def)
  next
    case (valid p pl)
    have k: ?key using valid(1,2) by (rule key)
    have f: ?free using valid(3) by (simp only: make_missing_raises)
    let ?st = "snd (register_remote (?w1, [MakeDirs ?pp]))"
    have st: "?st = (fst ?st, snd ?st)"
      by simp
    have "added (snd ?st) =
        (if REMOTE \<in> remote_name ` set (remotes w) then [] else [(REMOTE, REMOTE_URL)])"
      by (simp add: register_remote_eq remote_add_frame)
    moreover have "added (snd (snd (Main argv w))) = added (snd ?st)"
      unfolding Main_def valid(5) using added_write_all [of ?pp _ "fst ?st" "snd ?st"]
      by simp
    ultimately show ?thesis
      using k f by simp
  qed
qed

theorem remote_added_iff_absent_witness:
  "REMOTE \<in> remote_name ` set
     [\<lparr>remote_name = ''artyjay'', remote_url = ''file:///srv/conan'', verify_ssl = True\<rparr>] \<and>
   register_remote
     (fresh_world\<lparr>remotes :=
        [\<lparr>remote_name = ''artyjay'', remote_url = ''file:///srv/conan'', verify_ssl = True\<rparr>]\<rparr>,
      []) =
     (None,
      fresh_world\<lparr>remotes :=
        [\<lparr>remote_name = ''artyjay'', remote_url = ''file:///srv/conan'', verify_ssl = True\<rparr>]\<rparr>,
      []) \<and>
   added (snd (snd (Main [''-p'', ''Linux'']
     (fresh_world\<lparr>remotes :=
        [\<lparr>remote_name = ''artyjay'', remote_url = ''file:///srv/conan'',
          verify_ssl = True\<rparr>]\<rparr>)))) = [] \<and>
   REMOTE \<notin> remote_name ` set (remotes fresh_world) \<and>
   REMOTE_URL \<notin> remote_url ` set (remotes fresh_world) \<and>
   fst (register_remote (fresh_world, [])) = None \<and>
   remotes (fst (snd (register_remote (fresh_world, [])))) =
     [\<lparr>remote_name = ''artyjay'',
       remote_url = ''https://artyjay.jfrog.io/artifactory/api/conan/conan-local'',
       verify_ssl = True\<rparr>] \<and>
   added (snd (snd (Main [''-p'', ''Linux''] fresh_world))) =
     [(''artyjay'', ''https://artyjay.jfrog.io/artifactory/api/conan/conan-local'')] \<and>
   fst (register_remote (mirrored_world, [])) = Some ConanException \<and>
   remotes (fst (snd (register_remote (mirrored_world, [])))) = remotes mirrored_world"
proof -
  let ?named = "fresh_world\<lparr>remotes :=
        [\<lparr>remote_name = ''artyjay'', remote_url = ''file:///srv/conan'', verify_ssl = True\<rparr>]\<rparr>"
  have a: "REMOTE \<in> remote_name ` set
     [\<lparr>remote_name = ''artyjay'', remote_url = ''file:///srv/conan'', verify_ssl = True\<rparr>]"
    by (simp add: REMOTE_def)
  then have a': "REMOTE \<in> remote_name ` set (remotes ?named)"
    by simp
  have b: "REMOTE \<notin> remote_name ` set (remotes fresh_world)"
    and c: "REMOTE_URL \<notin> remote_url ` set (remotes fresh_world)"
    by (simp_all add: fresh_world_def)
  have m: "fst (register_remote (mirrored_world, [])) = Some ConanException"
    by code_simp
  then have m': "fst (register_remote (mirrored_world, [])) \<noteq> None"
    by simp
  note named = remote_added_iff_absent [of ?named "[]" "[''-p'', ''Linux'']"]
  note fresh = remote_added_iff_absent [of fresh_world "[]" "[''-p'', ''Linux'']"]
  note mirrored = remote_added_iff_absent [of mirrored_world "[]" "[]"]
  have n1: "register_remote (?named, []) = (None, ?named, [])"
    using named [THEN conjunct2, THEN conjunct1] a' by blast
  have n2: "added (snd (snd (Main [''-p'', ''Linux''] ?named))) = []"
    using named [THEN conjunct2, THEN conjunct2, THEN conjunct2, THEN conjunct2,
        THEN conjunct2, THEN conjunct2] a'
    by (simp only: if_False simp_thms)
  have f1: "fst (register_remote (fresh_world, [])) = None \<and>
      remotes (fst (snd (register_remote (fresh_world, [])))) =
        remotes fresh_world @
          [\<lparr>remote_name = REMOTE, remote_url = REMOTE_URL, verify_ssl = True\<rparr>]"
    using fresh [THEN conjunct2, THEN conjunct2, THEN conjunct2, THEN conjunct2,
        THEN conjunct2, THEN conjunct1] b c by blast
  then have f2: "remotes (fst (snd (register_remote (fresh_world, [])))) =
     [\<lparr>remote_name = ''artyjay'',
       remote_url = ''https://artyjay.jfrog.io/artifactory/api/conan/conan-local'',
       verify_ssl = True\<rparr>]"
    by (simp add: fresh_world_def REMOTE_def REMOTE_URL_def)
  have p: "parse_args [''-p'', ''Linux''] = Namespace (Some ''Linux'')"
    by code_simp
  have k: "\<exists>p. parse_args [''-p'', ''Linux''] = Namespace (Some p) \<and> p \<in> fst ` set HOST_SETTINGS"
    unfolding p by (simp add: HOST_SETTINGS_def)
  have "fst (make_missing (path_chain (profiles_dir fresh_world)) (fs fresh_world)) = None"
    by code_simp
  then have free: "\<forall>q\<in>set (path_chain (profiles_dir fresh_world)). \<forall>t.
      fs fresh_world q \<noteq> Some (File t)"
    by (simp only: make_missing_raises)
  have f3: "added (snd (snd (Main [''-p'', ''Linux''] fresh_world))) =
     [(''artyjay'', ''https://artyjay.jfrog.io/artifactory/api/conan/conan-local'')]"
    using fresh [THEN conjunct2, THEN conjunct2, THEN conjunct2, THEN conjunct2,
        THEN conjunct2, THEN conjunct2] k free b
    by (simp add: REMOTE_def REMOTE_URL_def)
  have m2: "remotes (fst (snd (register_remote (mirrored_world, [])))) = remotes mirrored_world"
    using mirrored [THEN conjunct2, THEN conjunct2, THEN conjunct2, THEN conjunct2,
        THEN conjunct1] m' by blast
  from a n1 n2 b c f1 [THEN conjunct1] f2 f3 m m2 show ?thesis
    by (intro conjI)
qed

subsection \<open>A second run\<close>

text \<open>
  C4. Two runs for the same platform, the second one on the world the first one left,
  with tables that may differ between them: every file there after the first run has
  the same text after the second; the second run writes only to paths at which nothing
  was, so a combination whose path exists is skipped; and with the tables unchanged the
  second run writes nothing and leaves the file system as it found it.
\<close>

theorem second_run_overwrites_nothing:
  assumes "Main_on hs1 bts1 argv w0 = (r1, w1, log1)"
    and "Main_on hs2 bts2 argv w1 = (r2, w2, log2)"
  shows "(\<forall>p t. fs w1 p = Some (File t) \<longrightarrow> fs w2 p = Some (File t)) \<and>
         (\<forall>(p, t)\<in>set (written log2). fs w1 p = None) \<and>
         (hs2 = hs1 \<and> bts2 = bts1 \<longrightarrow> written log2 = [] \<and> fs w2 = fs w1)"
proof (intro conjI allI impI)
  fix p t assume "fs w1 p = Some (File t)"
  then show "fs w2 p = Some (File t)"
    by (rule Main_on_fs(2) [OF assms(2)])
next
  show "\<forall>(p, t)\<in>set (written log2). fs w1 p = None"
  proof (clarify)
    fix p t assume "(p, t) \<in> set (written log2)"
    then show "fs w1 p = None"
      using Main_on_fs(3) [OF assms(2)] by blast
  qed
next
  assume "hs2 = hs1 \<and> bts2 = bts1"
  then have "Main_on hs1 bts1 argv w1 = (r2, w2, log2)"
    using assms(2) by simp
  with assms(1) have both: "written log2 = [] \<and> fs w2 = fs w1"
    by (rule Main_on_again)
  from both show "written log2 = []" by simp
  from both show "fs w2 = fs w1" by simp
qed

theorem second_run_overwrites_nothing_witness:
  "fs (fst (snd (Main_on HOST_SETTINGS BUILD_TYPES [''-p'', ''Windows''] fresh_world)))
     ''/home/u/.conan/profiles/windows-x86_64-msvc_mt-release'' =
     Some (File ''[settings]\<newline>os=Windows\<newline>os_build=Windows\<newline>arch=x86_64\<newline>arch_build=x86_64\<newline>compiler=Visual Studio\<newline>compiler.version=16\<newline>compiler.runtime=MT\<newline>build_type=Release\<newline>[options]\<newline>[build_requires]\<newline>[env]\<newline>\<newline>'') \<and>
   fs (fst (snd (Main_on HOST_SETTINGS_vs17 BUILD_TYPES [''-p'', ''Windows'']
       (fst (snd (Main_on HOST_SETTINGS BUILD_TYPES [''-p'', ''Windows''] fresh_world))))))
     ''/home/u/.conan/profiles/windows-x86_64-msvc_mt-release'' =
     Some (File ''[settings]\<newline>os=Windows\<newline>os_build=Windows\<newline>arch=x86_64\<newline>arch_build=x86_64\<newline>compiler=Visual Studio\<newline>compiler.version=16\<newline>compiler.runtime=MT\<newline>build_type=Release\<newline>[options]\<newline>[build_requires]\<newline>[env]\<newline>\<newline>'') \<and>
   written (snd (snd (Main_on HOST_SETTINGS BUILD_TYPES [''-p'', ''Windows'']
       (fst (snd (Main_on HOST_SETTINGS BUILD_TYPES [''-p'', ''Windows''] fresh_world)))))) = []"
proof -
  let ?X = "Main_on HOST_SETTINGS BUILD_TYPES [''-p'', ''Windows''] fresh_world"
  let ?Y = "Main_on HOST_SETTINGS_vs17 BUILD_TYPES [''-p'', ''Windows''] (fst (snd ?X))"
  let ?Z = "Main_on HOST_SETTINGS BUILD_TYPES [''-p'', ''Windows''] (fst (snd ?X))"
  have x: "?X = (fst ?X, fst (snd ?X), snd (snd ?X))"
    and y: "?Y = (fst ?Y, fst (snd ?Y), snd (snd ?Y))"
    and z: "?Z = (fst ?Z, fst (snd ?Z), snd (snd ?Z))"
    by simp_all
  have a: "fs (fst (snd ?X)) ''/home/u/.conan/profiles/windows-x86_64-msvc_mt-release'' =
     Some (File ''[settings]\<newline>os=Windows\<newline>os_build=Windows\<newline>arch=x86_64\<newline>arch_build=x86_64\<newline>compiler=Visual Studio\<newline>compiler.version=16\<newline>compiler.runtime=MT\<newline>build_type=Release\<newline>[options]\<newline>[build_requires]\<newline>[env]\<newline>\<newline>'')"
    by code_simp
  have b: "fs (fst (snd ?Y)) ''/home/u/.conan/profiles/windows-x86_64-msvc_mt-release'' =
     Some (File ''[settings]\<newline>os=Windows\<newline>os_build=Windows\<newline>arch=x86_64\<newline>arch_build=x86_64\<newline>compiler=Visual Studio\<newline>compiler.version=16\<newline>compiler.runtime=MT\<newline>build_type=Release\<newline>[options]\<newline>[build_requires]\<newline>[env]\<newline>\<newline>'')"
    using second_run_overwrites_nothing [OF x y] a by blast
  have c: "written (snd (snd ?Z)) = []"
    using second_run_overwrites_nothing [OF x z] by blast
  from a b c show ?thesis
    by (intro conjI)
qed

subsection \<open>The text of a profile\<close>

lemma build_profile_text:
  "snd (snd (build_profile s c)) =
     ''[settings]'' @ [CHR 0x0A] @
     join [CHR 0x0A] (map (\<lambda>(k, v). k @ ''='' @ v) (fst (snd (merge_profile s c)))) @ [CHR 0x0A] @
     ''[options]'' @ [CHR 0x0A] @
     ''[build_requires]'' @ [CHR 0x0A] @
     ''[env]'' @ [CHR 0x0A] @
     join [CHR 0x0A] (map (\<lambda>(k, v). k @ ''='' @ v) (snd (snd (merge_profile s c)))) @ [CHR 0x0A]"
  by (cases c)
    (simp add: build_profile_def Let_def CONAN_PROFILE_TEMPLATE_def values_string_def
      case_prod_unfold)

lemma build_profile_name:
  "fst (snd (build_profile s (i, j, k))) =
     name (os_arch_types s ! i) @ ''-'' @ name (compiler_types s ! j) @ ''-'' @
     name (build_types s ! k)"
  by (simp add: build_profile_def Let_def)

text \<open>
  C8. Every file a run writes, whatever the tables, holds the four sections in the order
  \<open>[settings]\<close>, \<open>[options]\<close>, \<open>[build_requires]\<close>, \<open>[env]\<close>: under \<open>[settings]\<close>
  and \<open>[env]\<close> the \<open>key=value\<close> lines of the merged settings and of the merged
  environment of one combination of the platform, joined by newlines, and nothing under
  \<open>[options]\<close> and \<open>[build_requires]\<close>. That text is what the file holds when the run
  ends.
\<close>

theorem written_profile_is_template:
  assumes "Main_on hs bts argv w = (r, w', log)"
    and "(path, text) \<in> set (written log)"
  shows "fs w' path = Some (File text) \<and>
         (\<exists>p pl. parse_args argv = Namespace (Some p) \<and> map_of hs p = Some pl \<and>
            (\<exists>c\<in>set (combinations (store_of pl bts)).
               path = path_join (profiles_dir w)
                        (fst (snd (build_profile (store_of pl bts) c))) \<and>
               text =
                 ''[settings]'' @ [CHR 0x0A] @
                 join [CHR 0x0A] (map (\<lambda>(k, v). k @ ''='' @ v)
                   (fst (snd (merge_profile (store_of pl bts) c)))) @ [CHR 0x0A] @
                 ''[options]'' @ [CHR 0x0A] @
                 ''[build_requires]'' @ [CHR 0x0A] @
                 ''[env]'' @ [CHR 0x0A] @
                 join [CHR 0x0A] (map (\<lambda>(k, v). k @ ''='' @ v)
                   (snd (snd (merge_profile (store_of pl bts) c)))) @ [CHR 0x0A]))"
  (is "_ \<and> ?B")
proof
  show "fs w' path = Some (File text)"
    using Main_on_fs(3) [OF assms] by simp
  from Main_on_written [OF assms] obtain p pl c where
    "parse_args argv = Namespace (Some p)" "map_of hs p = Some pl"
    "c \<in> set (combinations (store_of pl bts))"
    "path = path_join (profiles_dir w) (fst (snd (build_profile (store_of pl bts) c)))"
    "text = snd (snd (build_profile (store_of pl bts) c))"
    by blast
  then show ?B
    using build_profile_text [of "store_of pl bts" c] by (simp only:) blast
qed

theorem written_profile_is_template_witness:
  "(''/home/u/.conan/profiles/linux-x86_64-gcc-release'',
    ''[settings]\<newline>os=Linux\<newline>os_build=Linux\<newline>arch=x86_64\<newline>arch_build=x86_64\<newline>compiler=gcc\<newline>compiler.version=10\<newline>compiler.libcxx=libstdc++11\<newline>build_type=Release\<newline>[options]\<newline>[build_requires]\<newline>[env]\<newline>CC=gcc-10\<newline>CXX=g++-10\<newline>AR=gcc-ar-10\<newline>NM=gcc-nm-10\<newline>'')
     \<in> set (written (snd (snd (Main_on HOST_SETTINGS BUILD_TYPES [''--platform'', ''Linux'']
           fresh_world)))) \<and>
   fs (fst (snd (Main_on HOST_SETTINGS BUILD_TYPES [''--platform'', ''Linux''] fresh_world)))
     ''/home/u/.conan/profiles/linux-x86_64-gcc-release'' =
     Some (File ''[settings]\<newline>os=Linux\<newline>os_build=Linux\<newline>arch=x86_64\<newline>arch_build=x86_64\<newline>compiler=gcc\<newline>compiler.version=10\<newline>compiler.libcxx=libstdc++11\<newline>build_type=Release\<newline>[options]\<newline>[build_requires]\<newline>[env]\<newline>CC=gcc-10\<newline>CXX=g++-10\<newline>AR=gcc-ar-10\<newline>NM=gcc-nm-10\<newline>'')"
proof -
  let ?X = "Main_on HOST_SETTINGS BUILD_TYPES [''--platform'', ''Linux''] fresh_world"
  have x: "?X = (fst ?X, fst (snd ?X), snd (snd ?X))"
    by simp
  have mem: "(''/home/u/.conan/profiles/linux-x86_64-gcc-release'',
    ''[settings]\<newline>os=Linux\<newline>os_build=Linux\<newline>arch=x86_64\<newline>arch_build=x86_64\<newline>compiler=gcc\<newline>compiler.version=10\<newline>compiler.libcxx=libstdc++11\<newline>build_type=Release\<newline>[options]\<newline>[build_requires]\<newline>[env]\<newline>CC=gcc-10\<newline>CXX=g++-10\<newline>AR=gcc-ar-10\<newline>NM=gcc-nm-10\<newline>'')
     \<in> set (written (snd (snd ?X)))"
    by code_simp
  from written_profile_is_template [OF x mem] mem show ?thesis
    by blast
qed

section \<open>The names and the number of the profiles\<close>

lemma written_map_WriteFile:
  "written (map (\<lambda>x. WriteFile (f x) (g x)) xs) = map (\<lambda>x. (f x, g x)) xs"
  by (induction xs) auto

lemma profiles_dir_shape: "profiles_dir w \<noteq> [] \<and> last (profiles_dir w) = CHR ''s''"
  by (simp add: profiles_dir_def path_join_def)

lemma path_join_profiles_dir:
  "take 1 n \<noteq> ''/'' \<Longrightarrow> path_join (profiles_dir w) n = profiles_dir w @ ''/'' @ n"
  using profiles_dir_shape [of w] by (simp add: path_join_def)

lemma rendered_names:
  assumes "\<forall>c\<in>set cs. valid s c"
  shows "map fst (rendered_profiles cs s) =
     map (\<lambda>(i, j, k). name (os_arch_types s ! i) @ ''-'' @ name (compiler_types s ! j) @ ''-'' @
            name (build_types s ! k)) cs"
proof -
  have "rendered_profiles cs s = map (\<lambda>c. snd (build_profile s c)) cs"
    using store_rel_refl assms by (rule rendered_profiles_rel)
  then show ?thesis
    by (auto simp: build_profile_name)
qed

text \<open>The names of the static table, evaluated.\<close>

lemma static_names:
  "\<forall>(p, pl)\<in>set HOST_SETTINGS.
     distinct (map (\<lambda>c. fst (snd (build_profile (store_of pl BUILD_TYPES) c)))
       (combinations (store_of pl BUILD_TYPES))) \<and>
     (\<forall>c\<in>set (combinations (store_of pl BUILD_TYPES)).
        take 1 (fst (snd (build_profile (store_of pl BUILD_TYPES) c))) \<noteq> ''/'')"
  by code_simp

lemma static_keys: "(p, pl) \<in> set HOST_SETTINGS \<Longrightarrow> map_of HOST_SETTINGS p = Some pl"
  by (rule map_of_is_SomeI) (simp_all add: HOST_SETTINGS_def)

lemma distinct_map_prefix:
  "distinct (map f xs) \<Longrightarrow> distinct (map (\<lambda>x. pre @ f x) xs)"
  by (induction xs) auto

lemma static_paths_distinct:
  assumes "(p, pl) \<in> set HOST_SETTINGS"
  shows "distinct (map (\<lambda>c. path_join (profiles_dir w)
            (fst (snd (build_profile (store_of pl BUILD_TYPES) c))))
          (combinations (store_of pl BUILD_TYPES)))"
    and "\<forall>c\<in>set (combinations (store_of pl BUILD_TYPES)).
           path_join (profiles_dir w) (fst (snd (build_profile (store_of pl BUILD_TYPES) c))) =
           profiles_dir w @ ''/'' @ fst (snd (build_profile (store_of pl BUILD_TYPES) c))"
proof -
  let ?s = "store_of pl BUILD_TYPES"
  let ?n = "\<lambda>c. fst (snd (build_profile ?s c))"
  from static_names assms have d: "distinct (map ?n (combinations ?s))"
    and rel: "\<forall>c\<in>set (combinations ?s). take 1 (?n c) \<noteq> ''/''"
    by blast+
  show eq: "\<forall>c\<in>set (combinations ?s).
      path_join (profiles_dir w) (?n c) = profiles_dir w @ ''/'' @ ?n c"
    using rel by (simp add: path_join_profiles_dir)
  have "map (\<lambda>c. path_join (profiles_dir w) (?n c)) (combinations ?s) =
      map (\<lambda>c. (profiles_dir w @ ''/'') @ ?n c) (combinations ?s)"
    using eq by (simp cong: map_cong)
  moreover have "distinct (map (\<lambda>c. (profiles_dir w @ ''/'') @ ?n c) (combinations ?s))"
    using d by (rule distinct_map_prefix)
  ultimately show "distinct (map (\<lambda>c. path_join (profiles_dir w) (?n c)) (combinations ?s))"
    by (simp only:)
qed

text \<open>
  C7. In any run the name computed for a combination is the name of its os/arch variant,
  of its compiler variant and of its build type, joined by hyphens, whatever earlier
  iterations did to the table. For each platform of \<open>HOST_SETTINGS\<close> the names of the
  combinations of a run are pairwise distinct, and so are the paths of their files.
\<close>

theorem profile_names_unique:
  "((\<forall>c\<in>set cs. valid s c) \<longrightarrow>
      map fst (rendered_profiles cs s) =
        map (\<lambda>(i, j, k). name (os_arch_types s ! i) @ ''-'' @ name (compiler_types s ! j) @
               ''-'' @ name (build_types s ! k)) cs) \<and>
   (\<forall>(p, pl)\<in>set HOST_SETTINGS.
      distinct (map fst (rendered_profiles (combinations (store_of pl BUILD_TYPES))
                  (store_of pl BUILD_TYPES))) \<and>
      distinct (map (\<lambda>np. path_join (profiles_dir w) (fst np))
                  (rendered_profiles (combinations (store_of pl BUILD_TYPES))
                     (store_of pl BUILD_TYPES))))"
proof (intro conjI impI)
  assume "\<forall>c\<in>set cs. valid s c"
  then show "map fst (rendered_profiles cs s) =
        map (\<lambda>(i, j, k). name (os_arch_types s ! i) @ ''-'' @ name (compiler_types s ! j) @
               ''-'' @ name (build_types s ! k)) cs"
    by (rule rendered_names)
next
  show "\<forall>(p, pl)\<in>set HOST_SETTINGS.
      distinct (map fst (rendered_profiles (combinations (store_of pl BUILD_TYPES))
                  (store_of pl BUILD_TYPES))) \<and>
      distinct (map (\<lambda>np. path_join (profiles_dir w) (fst np))
                  (rendered_profiles (combinations (store_of pl BUILD_TYPES))
                     (store_of pl BUILD_TYPES)))"
  proof (clarify)
    fix p pl assume mem: "(p, pl) \<in> set HOST_SETTINGS"
    let ?s = "store_of pl BUILD_TYPES"
    have r: "rendered_profiles (combinations ?s) ?s =
        map (\<lambda>c. snd (build_profile ?s c)) (combinations ?s)"
      by (rule rendered_profiles_rel) (auto simp: store_rel_refl combinations_valid)
    have "distinct (map (\<lambda>c. fst (snd (build_profile ?s c))) (combinations ?s))"
      using static_names mem by blast
    moreover note static_paths_distinct(1) [OF mem, of w]
    ultimately show "distinct (map fst (rendered_profiles (combinations ?s) ?s)) \<and>
      distinct (map (\<lambda>np. path_join (profiles_dir w) (fst np))
                  (rendered_profiles (combinations ?s) ?s))"
      by (simp add: r comp_def)
  qed
qed

theorem profile_names_unique_witness:
  "valid (store_of (snd (hd HOST_SETTINGS)) BUILD_TYPES) (0, 1, 0) \<and>
   valid (store_of (snd (hd HOST_SETTINGS)) BUILD_TYPES) (0, 0, 1) \<and>
   map fst (rendered_profiles [(0, 1, 0), (0, 0, 1), (0, 1, 0)]
              (store_of (snd (hd HOST_SETTINGS)) BUILD_TYPES)) =
     [''linux-x86_64-gcc-debug'', ''linux-x86_64-clang-release'', ''linux-x86_64-gcc-debug''] \<and>
   hd HOST_SETTINGS \<in> set HOST_SETTINGS \<and>
   map fst (rendered_profiles (combinations (store_of (snd (hd HOST_SETTINGS)) BUILD_TYPES))
              (store_of (snd (hd HOST_SETTINGS)) BUILD_TYPES)) =
     [''linux-x86_64-clang-debug'', ''linux-x86_64-clang-release'',
      ''linux-x86_64-gcc-debug'', ''linux-x86_64-gcc-release''] \<and>
   distinct (map fst (rendered_profiles (combinations (store_of (snd (hd HOST_SETTINGS)) BUILD_TYPES))
              (store_of (snd (hd HOST_SETTINGS)) BUILD_TYPES)))"
proof -
  let ?s = "store_of (snd (hd HOST_SETTINGS)) BUILD_TYPES"
  have v: "\<forall>c\<in>set [(0, 1, 0), (0, 0, 1), (0, 1, 0)]. valid ?s c"
    by code_simp
  have m: "hd HOST_SETTINGS \<in> set HOST_SETTINGS"
    by (simp add: HOST_SETTINGS_def)
  have e1: "map (\<lambda>(i, j, k). name (os_arch_types ?s ! i) @ ''-'' @ name (compiler_types ?s ! j) @
               ''-'' @ name (build_types ?s ! k)) [(0, 1, 0), (0, 0, 1), (0, 1, 0)] =
     [''linux-x86_64-gcc-debug'', ''linux-x86_64-clang-release'', ''linux-x86_64-gcc-debug'']"
    by code_simp
  have e2: "map fst (rendered_profiles (combinations ?s) ?s) =
     [''linux-x86_64-clang-debug'', ''linux-x86_64-clang-release'',
      ''linux-x86_64-gcc-debug'', ''linux-x86_64-gcc-release'']"
    by code_simp
  have a: "map fst (rendered_profiles [(0, 1, 0), (0, 0, 1), (0, 1, 0)] ?s) =
     [''linux-x86_64-gcc-debug'', ''linux-x86_64-clang-release'', ''linux-x86_64-gcc-debug'']"
    using profile_names_unique [of "[(0, 1, 0), (0, 0, 1), (0, 1, 0)]" ?s] v e1 by simp
  have "\<forall>(p, pl)\<in>set HOST_SETTINGS.
      distinct (map fst (rendered_profiles (combinations (store_of pl BUILD_TYPES))
                  (store_of pl BUILD_TYPES))) \<and>
      distinct (map (\<lambda>np. path_join (profiles_dir fresh_world) (fst np))
                  (rendered_profiles (combinations (store_of pl BUILD_TYPES))
                     (store_of pl BUILD_TYPES)))"
    using profile_names_unique [where cs = "[]" and s = ?s and w = fresh_world]
    by (rule conjunct2)
  then have "case hd HOST_SETTINGS of (p, pl) \<Rightarrow>
      distinct (map fst (rendered_profiles (combinations (store_of pl BUILD_TYPES))
                  (store_of pl BUILD_TYPES))) \<and>
      distinct (map (\<lambda>np. path_join (profiles_dir fresh_world) (fst np))
                  (rendered_profiles (combinations (store_of pl BUILD_TYPES))
                     (store_of pl BUILD_TYPES)))"
    using m by (rule bspec)
  then have b: "distinct (map fst (rendered_profiles (combinations ?s) ?s))"
    by (simp add: case_prod_unfold)
  have v1: "valid ?s (0, 1, 0)" and v2: "valid ?s (0, 0, 1)"
    using v by simp_all
  from v1 v2 a m e2 b show ?thesis
    by (intro conjI)
qed

text \<open>
  C1. For a platform of \<open>HOST_SETTINGS\<close> named on the command line and a profiles
  directory with nothing in it, a run that gets to the loop writes one file per
  combination of the platform's os/arch variants, its compiler variants and the build
  types, in the order of the product: the writes are to pairwise distinct paths, and
  there are as many as the product of the three lengths. The run gets to the loop when
  no regular file is at the profiles path or at a directory on the way to it, and when
  a remote named \<open>artyjay\<close> is listed or no listed remote holds its URL.
\<close>

theorem one_write_per_combination:
  assumes "(p, pl) \<in> set HOST_SETTINGS"
    and "parse_args argv = Namespace (Some p)"
    and "\<forall>q\<in>set (path_chain (profiles_dir w)). \<forall>t. fs w q \<noteq> Some (File t)"
    and "REMOTE \<in> remote_name ` set (remotes w) \<or> REMOTE_URL \<notin> remote_url ` set (remotes w)"
    and "\<forall>n. fs w (profiles_dir w @ ''/'' @ n) = None"
  shows "fst (Main argv w) = Inr () \<and>
         written (snd (snd (Main argv w))) =
           map (\<lambda>c. (profiles_dir w @ ''/'' @ fst (snd (build_profile (store_of pl BUILD_TYPES) c)),
                     snd (snd (build_profile (store_of pl BUILD_TYPES) c))))
             (combinations (store_of pl BUILD_TYPES)) \<and>
         combinations (store_of pl BUILD_TYPES) =
           List.product [0..<length (os_arch pl)]
             (List.product [0..<length (compilers pl)] [0..<length BUILD_TYPES]) \<and>
         distinct (map fst (written (snd (snd (Main argv w))))) \<and>
         length (written (snd (snd (Main argv w)))) =
           length (os_arch pl) * length (compilers pl) * length BUILD_TYPES \<and>
         card (set (written (snd (snd (Main argv w))))) =
           length (os_arch pl) * length (compilers pl) * length BUILD_TYPES"
proof -
  let ?pp = "profiles_dir w"
  let ?mm = "make_missing (path_chain ?pp) (fs w)"
  let ?s = "store_of pl BUILD_TYPES"
  let ?nps = "map (\<lambda>c. snd (build_profile ?s c)) (combinations ?s)"
  let ?w1 = "w\<lparr>fs := snd ?mm\<rparr>"
  let ?log = "snd (snd (Main argv w))"
  have made: "fst (makedirs ?pp (w, [])) = None"
    using assms(3) by (simp only: makedirs_parts make_missing_raises)
  have "fst (register_remote (w, [])) = None"
  proof (cases "REMOTE \<in> remote_name ` set (remotes w)")
    case True
    then show ?thesis by (simp add: register_remote_eq)
  next
    case False
    with assms(4) have "REMOTE_URL \<notin> remote_url ` set (remotes w)"
      by simp
    with False have "fst (remote_add REMOTE REMOTE_URL (w, [])) = None"
      by (rule remote_add_free)
    with False show ?thesis by (simp add: register_remote_eq)
  qed
  moreover have "fst (register_remote (?w1, [MakeDirs ?pp])) = fst (register_remote (w, []))"
    by (rule register_remote_raises) simp
  ultimately have reg: "fst (register_remote (?w1, [MakeDirs ?pp])) = None"
    by simp
  obtain w2 log2 where st2: "snd (register_remote (?w1, [MakeDirs ?pp])) = (w2, log2)"
    by (cases "snd (register_remote (?w1, [MakeDirs ?pp]))") auto
  have fs2: "fs w2 = snd ?mm" and wr2: "written log2 = []"
    using register_remote_frame(1,3) [of ?w1 "[MakeDirs ?pp]"] by (simp_all add: st2)
  have M: "Main argv w = (Inr (), write_all ?pp ?nps (w2, log2))"
    unfolding Main_def using assms(2) static_keys [OF assms(1)] made reg st2
    by (simp add: Main_on_eq makedirs_parts)
  have paths: "\<forall>c\<in>set (combinations ?s).
      path_join ?pp (fst (snd (build_profile ?s c))) = ?pp @ ''/'' @ fst (snd (build_profile ?s c))"
    by (rule static_paths_distinct(2) [OF assms(1)])
  have d: "distinct (map (\<lambda>np. path_join ?pp (fst np)) ?nps)"
    using static_paths_distinct(1) [OF assms(1), of w] by (simp add: comp_def)
  have under: "\<And>n. snd ?mm (?pp @ ''/'' @ n) = None"
  proof -
    fix n
    show "snd ?mm (?pp @ ''/'' @ n) = None"
    proof (cases "snd ?mm (?pp @ ''/'' @ n)")
      case None
      then show ?thesis .
    next
      case (Some x)
      moreover have "fs w (?pp @ ''/'' @ n) = None"
        using assms(5) by simp
      ultimately have "?pp @ ''/'' @ n \<in> set (path_chain ?pp)"
        using make_missing_new by blast
      then have "length (?pp @ ''/'' @ n) \<le> length ?pp"
        by (rule path_chain_length)
      then show ?thesis by simp
    qed
  qed
  have fresh: "\<forall>np\<in>set ?nps. fs w2 (path_join ?pp (fst np)) = None"
    using paths under by (auto simp: fs2)
  have "snd (write_all ?pp ?nps (w2, log2)) =
      log2 @ map (\<lambda>np. WriteFile (path_join ?pp (fst np)) (snd np)) ?nps"
    using d fresh by (rule write_all_fresh)
  then have w0: "written ?log = map (\<lambda>np. (path_join ?pp (fst np), snd np)) ?nps"
    by (simp add: M written_append wr2 written_map_WriteFile comp_def)
  then have w: "written ?log =
      map (\<lambda>c. (?pp @ ''/'' @ fst (snd (build_profile ?s c)), snd (snd (build_profile ?s c))))
        (combinations ?s)"
    using paths by (simp add: comp_def)
  have dw: "distinct (map fst (written ?log))"
    using d by (simp add: w0 comp_def)
  then have "distinct (written ?log)"
    by (simp add: distinct_map)
  then have card: "card (set (written ?log)) = length (written ?log)"
    by (rule distinct_card)
  have len: "length (written ?log) =
      length (os_arch pl) * length (compilers pl) * length BUILD_TYPES"
    by (simp add: w length_combinations store_of_def)
  have comb: "combinations ?s =
      List.product [0..<length (os_arch pl)]
        (List.product [0..<length (compilers pl)] [0..<length BUILD_TYPES])"
    by (simp add: combinations_def store_of_def)
  have r: "fst (Main argv w) = Inr ()"
    by (simp add: M)
  from r w comb dw len card show ?thesis
    by simp
qed

theorem one_write_per_combination_witness:
  "(''Linux'', snd (hd HOST_SETTINGS)) \<in> set HOST_SETTINGS \<and>
   parse_args [''-p'', ''Linux''] = Namespace (Some ''Linux'') \<and>
   fst (makedirs (profiles_dir fresh_world) (fresh_world, [])) = None \<and>
   REMOTE_URL \<notin> remote_url ` set (remotes fresh_world) \<and>
   (\<forall>n. fs fresh_world (profiles_dir fresh_world @ ''/'' @ n) = None) \<and>
   length (os_arch (snd (hd HOST_SETTINGS))) = 1 \<and>
   length (compilers (snd (hd HOST_SETTINGS))) = 2 \<and>
   length BUILD_TYPES = 2 \<and>
   fst (Main [''-p'', ''Linux''] fresh_world) = Inr () \<and>
   length (written (snd (snd (Main [''-p'', ''Linux''] fresh_world)))) = 4 \<and>
   card (set (written (snd (snd (Main [''-p'', ''Linux''] fresh_world))))) = 4 \<and>
   distinct (map fst (written (snd (snd (Main [''-p'', ''Linux''] fresh_world)))))"
proof -
  have h1: "(''Linux'', snd (hd HOST_SETTINGS)) \<in> set HOST_SETTINGS"
    by (simp add: HOST_SETTINGS_def)
  have h2: "parse_args [''-p'', ''Linux''] = Namespace (Some ''Linux'')"
    by code_simp
  have m: "fst (makedirs (profiles_dir fresh_world) (fresh_world, [])) = None"
    by code_simp
  then have h3: "\<forall>q\<in>set (path_chain (profiles_dir fresh_world)). \<forall>t.
      fs fresh_world q \<noteq> Some (File t)"
    by (simp only: makedirs_parts make_missing_raises)
  have u: "REMOTE_URL \<notin> remote_url ` set (remotes fresh_world)"
    by (simp add: fresh_world_def)
  then have h4: "REMOTE \<in> remote_name ` set (remotes fresh_world) \<or>
      REMOTE_URL \<notin> remote_url ` set (remotes fresh_world)"
    by (rule disjI2)
  have h5: "\<forall>n. fs fresh_world (profiles_dir fresh_world @ ''/'' @ n) = None"
    by (simp add: fresh_world_def profiles_dir_def path_join_def)
  have l: "length (os_arch (snd (hd HOST_SETTINGS))) = 1"
    "length (compilers (snd (hd HOST_SETTINGS))) = 2" "length BUILD_TYPES = 2"
    by (simp_all add: HOST_SETTINGS_def BUILD_TYPES_def)
  note run = one_write_per_combination [OF h1 h2 h3 h4 h5]
  have r: "fst (Main [''-p'', ''Linux''] fresh_world) = Inr ()"
    using run by (elim conjE)
  have d: "distinct (map fst (written (snd (snd (Main [''-p'', ''Linux''] fresh_world)))))"
    using run by (elim conjE)
  have n: "length (written (snd (snd (Main [''-p'', ''Linux''] fresh_world)))) = 4"
    using run [THEN conjunct2, THEN conjunct2, THEN conjunct2, THEN conjunct2, THEN conjunct1]
    by (simp add: l)
  have c: "card (set (written (snd (snd (Main [''-p'', ''Linux''] fresh_world))))) = 4"
    using run [THEN conjunct2, THEN conjunct2, THEN conjunct2, THEN conjunct2, THEN conjunct2]
    by (simp add: l)
  from h1 h2 m u h5 l r n c d show ?thesis
    by (intro conjI)
qed

section \<open>The merge of a combination and the runtime linkage\<close>

lemma runtime_value_eq:
  "(if cn = ''msvc_mt'' then ''MT'' else ''MD'') @ (if bn = ''debug'' then ''d'' else []) =
     runtime_linkage cn bn"
  by (simp add: runtime_linkage_def)

lemma settings_of_apply_runtime:
  "settings_of (apply_runtime cn bn e) =
     (if is_vs e then dict_setitem (settings_of e) ''compiler.runtime'' (runtime_linkage cn bn)
      else settings_of e)"
  by (simp add: apply_runtime_def runtime_value_eq) (simp add: settings_of_def)

lemma env_of_apply_runtime: "env_of (apply_runtime cn bn e) = env_of e"
  by (simp add: apply_runtime_def env_of_def)

lemma apply_runtime_not_vs: "\<not> is_vs e \<Longrightarrow> apply_runtime cn bn e = e"
  by (simp add: apply_runtime_def)

lemma entry_ok_apply_runtime: "entry_ok e \<Longrightarrow> entry_ok (apply_runtime cn bn e)"
  by (simp add: entry_ok_def dict_ok_def settings_of_apply_runtime env_of_apply_runtime
      distinct_dict_setitem)

lemma entry_ok_mutated: "mutated e0 e \<Longrightarrow> entry_ok e0 \<Longrightarrow> entry_ok e"
  by (auto simp: mutated_def entry_ok_def dict_ok_def settings_of_def env_of_def
      distinct_dict_setitem)

lemma list_all_mutated:
  "list_all2 mutated xs ys \<Longrightarrow> list_all entry_ok xs \<Longrightarrow> list_all entry_ok ys"
  by (induction rule: list_all2_induct) (auto intro: entry_ok_mutated)

lemma store_ok_rel: "store_rel s0 s \<Longrightarrow> store_ok s0 \<Longrightarrow> store_ok s"
  by (auto simp: store_rel_def store_ok_def intro: list_all_mutated)

lemma store_ok_nth:
  assumes "store_ok s" and "valid s (i, j, k)"
  shows "entry_ok (os_arch_types s ! i)" and "entry_ok (compiler_types s ! j)"
    and "entry_ok (build_types s ! k)"
  using assms by (auto simp: store_ok_def valid_def list_all_length)

lemma map_of_merge3:
  assumes "dict_ok a" and "dict_ok b" and "dict_ok c"
  shows "map_of (dict_update (dict_update (dict_update [] a) b) c) =
     map_of a ++ map_of b ++ map_of c"
  using assms by (simp add: dict_ok_def map_of_dict_update)

lemma dict_ok_merge3: "dict_ok (dict_update (dict_update (dict_update [] a) b) c)"
  by (simp add: dict_ok_def distinct_dict_update)

text \<open>
  One iteration on the store an earlier part of the run has left: the entries it leaves
  at the three positions, and the merged dictionaries, in terms of the table the run
  started from.
\<close>

lemma merge_profile_run:
  assumes cs: "\<forall>c\<in>set cs. valid s0 c" and v: "valid s0 (i, j, k)"
    and m: "merge_profile (store_after cs s0) (i, j, k) = (s', ps, pe)"
  shows "os_arch_types s' ! i =
           apply_runtime (name (compiler_types s0 ! j)) (name (build_types s0 ! k))
             (os_arch_types s0 ! i)"
    and "compiler_types s' ! j =
           apply_runtime (name (compiler_types s0 ! j)) (name (build_types s0 ! k))
             (compiler_types s0 ! j)"
    and "build_types s' ! k =
           apply_runtime (name (compiler_types s0 ! j)) (name (build_types s0 ! k))
             (build_types s0 ! k)"
    and "ps = dict_update (dict_update (dict_update [] (settings_of (os_arch_types s' ! i)))
                 (settings_of (compiler_types s' ! j))) (settings_of (build_types s' ! k))"
    and "pe = dict_update (dict_update (dict_update [] (env_of (os_arch_types s0 ! i)))
                 (env_of (compiler_types s0 ! j))) (env_of (build_types s0 ! k))"
proof -
  let ?s = "store_after cs s0"
  have rel: "store_rel s0 ?s"
    using store_rel_refl cs by (rule store_after_rel)
  from v have i0: "i < length (os_arch_types s0)" and j0: "j < length (compiler_types s0)"
    and k0: "k < length (build_types s0)"
    by (auto simp: valid_def)
  from rel have i: "i < length (os_arch_types ?s)" and j: "j < length (compiler_types ?s)"
    and k: "k < length (build_types ?s)"
    using i0 j0 k0 by (auto simp: store_rel_def dest: list_all2_lengthD)
  from rel have mi: "mutated (os_arch_types s0 ! i) (os_arch_types ?s ! i)"
    and mj: "mutated (compiler_types s0 ! j) (compiler_types ?s ! j)"
    and mk: "mutated (build_types s0 ! k) (build_types ?s ! k)"
    using i0 j0 k0 by (auto simp: store_rel_def dest: list_all2_nthD)
  let ?cn = "name (compiler_types s0 ! j)" and ?bn = "name (build_types s0 ! k)"
  have eq: "(s', ps, pe) =
      (\<lparr>os_arch_types = (os_arch_types ?s)[i := apply_runtime ?cn ?bn (os_arch_types s0 ! i)],
        compiler_types = (compiler_types ?s)[j := apply_runtime ?cn ?bn (compiler_types s0 ! j)],
        build_types = (build_types ?s)[k := apply_runtime ?cn ?bn (build_types s0 ! k)]\<rparr>,
       dict_update (dict_update (dict_update []
           (settings_of (apply_runtime ?cn ?bn (os_arch_types s0 ! i))))
           (settings_of (apply_runtime ?cn ?bn (compiler_types s0 ! j))))
           (settings_of (apply_runtime ?cn ?bn (build_types s0 ! k))),
       dict_update (dict_update (dict_update [] (env_of (os_arch_types s0 ! i)))
           (env_of (compiler_types s0 ! j))) (env_of (build_types s0 ! k)))"
    unfolding m [symmetric] merge_profile_eq Let_def
    by (simp add: apply_runtime_mutated [OF mi] apply_runtime_mutated [OF mj]
        apply_runtime_mutated [OF mk] mutated_name [OF mj] mutated_name [OF mk]
        mutated_env [OF mi] mutated_env [OF mj] mutated_env [OF mk])
  from eq i show a: "os_arch_types s' ! i = apply_runtime ?cn ?bn (os_arch_types s0 ! i)"
    by simp
  from eq j show b: "compiler_types s' ! j = apply_runtime ?cn ?bn (compiler_types s0 ! j)"
    by simp
  from eq k show c: "build_types s' ! k = apply_runtime ?cn ?bn (build_types s0 ! k)"
    by simp
  from eq show "ps = dict_update (dict_update (dict_update [] (settings_of (os_arch_types s' ! i)))
                 (settings_of (compiler_types s' ! j))) (settings_of (build_types s' ! k))"
    unfolding a b c by simp
  from eq show "pe = dict_update (dict_update (dict_update [] (env_of (os_arch_types s0 ! i)))
                 (env_of (compiler_types s0 ! j))) (env_of (build_types s0 ! k))"
    by simp
qed

lemma build_types_plain:
  assumes "k < length BUILD_TYPES"
  shows "\<not> is_vs (BUILD_TYPES ! k)"
    and "map_of (settings_of (BUILD_TYPES ! k)) ''compiler.runtime'' = None"
proof -
  from assms have "k = 0 \<or> k = 1"
    by (auto simp: BUILD_TYPES_def)
  then show "\<not> is_vs (BUILD_TYPES ! k)"
    and "map_of (settings_of (BUILD_TYPES ! k)) ''compiler.runtime'' = None"
    by (auto simp: BUILD_TYPES_def is_vs_def settings_of_def dict_get_def)
qed

text \<open>
  C3. In any iteration of a run, the merged settings are the union of the settings
  mappings of the three entries, os/arch then compiler then build type, a later mapping
  overriding an earlier one, and the merged environment is the union of their
  environment mappings in the same order: of the compiler's and the build type's when
  the os/arch variant has none, as in the data model. The mappings are those of the
  entries as they stand in the table when they are merged: the table's own, with
  \<open>compiler.runtime\<close> recomputed in a mapping whose compiler is Visual Studio. Each key
  is rendered once, and the profile's text is the template filled with the two merged
  dictionaries.
\<close>

theorem merged_in_fixed_order:
  assumes "store_ok s0" and "\<forall>c\<in>set cs. valid s0 c" and "valid s0 (i, j, k)"
    and "merge_profile (store_after cs s0) (i, j, k) = (s', profile_settings, profile_env)"
  shows "map_of profile_settings =
           map_of (settings_of (os_arch_types s' ! i)) ++
           map_of (settings_of (compiler_types s' ! j)) ++
           map_of (settings_of (build_types s' ! k)) \<and>
         map_of profile_env =
           map_of (env_of (os_arch_types s' ! i)) ++
           map_of (env_of (compiler_types s' ! j)) ++
           map_of (env_of (build_types s' ! k)) \<and>
         (env (os_arch_types s0 ! i) = None \<longrightarrow>
            map_of profile_env =
              map_of (env_of (compiler_types s' ! j)) ++ map_of (env_of (build_types s' ! k))) \<and>
         dict_ok profile_settings \<and> dict_ok profile_env \<and>
         snd (snd (build_profile (store_after cs s0) (i, j, k))) =
           CONAN_PROFILE_TEMPLATE (values_string profile_settings) (values_string profile_env) \<and>
         (\<forall>e\<in>{(os_arch_types s0 ! i, os_arch_types s' ! i),
                (compiler_types s0 ! j, compiler_types s' ! j),
                (build_types s0 ! k, build_types s' ! k)}.
            env_of (snd e) = env_of (fst e) \<and>
            settings_of (snd e) =
              (if is_vs (fst e)
               then dict_setitem (settings_of (fst e)) ''compiler.runtime''
                      (runtime_linkage (name (compiler_types s0 ! j)) (name (build_types s0 ! k)))
               else settings_of (fst e)))"
proof -
  note run = merge_profile_run [OF assms(2,3,4)]
  note ok0 = store_ok_nth [OF assms(1,3)]
  let ?cn = "name (compiler_types s0 ! j)" and ?bn = "name (build_types s0 ! k)"
  have ok: "entry_ok (os_arch_types s' ! i)" "entry_ok (compiler_types s' ! j)"
    "entry_ok (build_types s' ! k)"
    unfolding run(1,2,3) using ok0 by (simp_all add: entry_ok_apply_runtime)
  have envs: "env_of (os_arch_types s' ! i) = env_of (os_arch_types s0 ! i)"
    "env_of (compiler_types s' ! j) = env_of (compiler_types s0 ! j)"
    "env_of (build_types s' ! k) = env_of (build_types s0 ! k)"
    unfolding run(1,2,3) by (simp_all add: env_of_apply_runtime)
  have a: "map_of profile_settings =
           map_of (settings_of (os_arch_types s' ! i)) ++
           map_of (settings_of (compiler_types s' ! j)) ++
           map_of (settings_of (build_types s' ! k))"
    unfolding run(4) using ok by (intro map_of_merge3) (simp_all add: entry_ok_def)
  have b: "map_of profile_env =
           map_of (env_of (os_arch_types s' ! i)) ++
           map_of (env_of (compiler_types s' ! j)) ++
           map_of (env_of (build_types s' ! k))"
    unfolding run(5) envs using ok0 by (intro map_of_merge3) (simp_all add: entry_ok_def)
  have c: "env (os_arch_types s0 ! i) = None \<longrightarrow>
            map_of profile_env =
              map_of (env_of (compiler_types s' ! j)) ++ map_of (env_of (build_types s' ! k))"
  proof
    assume "env (os_arch_types s0 ! i) = None"
    then have "env_of (os_arch_types s0 ! i) = []"
      by (simp add: env_of_def)
    then have "env_of (os_arch_types s' ! i) = []"
      by (simp only: envs)
    with b show "map_of profile_env =
              map_of (env_of (compiler_types s' ! j)) ++ map_of (env_of (build_types s' ! k))"
      by simp
  qed
  have d: "dict_ok profile_settings" "dict_ok profile_env"
    unfolding run(4,5) by (rule dict_ok_merge3)+
  have e: "snd (snd (build_profile (store_after cs s0) (i, j, k))) =
           CONAN_PROFILE_TEMPLATE (values_string profile_settings) (values_string profile_env)"
    by (simp add: build_profile_def Let_def assms(4))
  have f: "\<forall>e\<in>{(os_arch_types s0 ! i, os_arch_types s' ! i),
                (compiler_types s0 ! j, compiler_types s' ! j),
                (build_types s0 ! k, build_types s' ! k)}.
            env_of (snd e) = env_of (fst e) \<and>
            settings_of (snd e) =
              (if is_vs (fst e)
               then dict_setitem (settings_of (fst e)) ''compiler.runtime''
                      (runtime_linkage ?cn ?bn)
               else settings_of (fst e))"
    by (simp add: envs) (simp add: run(1,2,3) settings_of_apply_runtime)
  from a b c d e f show ?thesis
    by (intro conjI)
qed

theorem merged_in_fixed_order_witness:
  "store_ok (platform_store ''Linux'') \<and>
   valid (platform_store ''Linux'') (0, 0, 0) \<and>
   valid (platform_store ''Linux'') (0, 1, 1) \<and>
   env (os_arch_types (platform_store ''Linux'') ! 0) = None \<and>
   map_of (fst (snd (merge_profile (store_after [(0, 0, 0)] (platform_store ''Linux'')) (0, 1, 1)))) =
     map_of [(''os'', ''Linux''), (''os_build'', ''Linux''), (''arch'', ''x86_64''),
             (''arch_build'', ''x86_64'')] ++
     map_of [(''compiler'', ''gcc''), (''compiler.version'', ''10''),
             (''compiler.libcxx'', ''libstdc++11'')] ++
     map_of [(''build_type'', ''Release'')] \<and>
   map_of (snd (snd (merge_profile (store_after [(0, 0, 0)] (platform_store ''Linux'')) (0, 1, 1)))) =
     map_of [(''CC'', ''gcc-10''), (''CXX'', ''g++-10''), (''AR'', ''gcc-ar-10''),
             (''NM'', ''gcc-nm-10'')] ++ map_of []"
proof -
  let ?s0 = "platform_store ''Linux''"
  let ?m = "merge_profile (store_after [(0, 0, 0)] ?s0) (0, 1, 1)"
  have ok: "store_ok ?s0"
    by code_simp
  have v0: "valid ?s0 (0, 0, 0)" and v: "valid ?s0 (0, 1, 1)"
    by code_simp+
  have cs: "\<forall>c\<in>set [(0, 0, 0)]. valid ?s0 c"
    using v0 by simp
  have m: "?m = (fst ?m, fst (snd ?m), snd (snd ?m))"
    by simp
  have e: "env (os_arch_types ?s0 ! 0) = None"
    by code_simp
  have t: "settings_of (os_arch_types (fst ?m) ! 0) =
      [(''os'', ''Linux''), (''os_build'', ''Linux''), (''arch'', ''x86_64''),
       (''arch_build'', ''x86_64'')]"
    "settings_of (compiler_types (fst ?m) ! 1) =
      [(''compiler'', ''gcc''), (''compiler.version'', ''10''),
       (''compiler.libcxx'', ''libstdc++11'')]"
    "settings_of (build_types (fst ?m) ! 1) = [(''build_type'', ''Release'')]"
    "env_of (compiler_types (fst ?m) ! 1) =
      [(''CC'', ''gcc-10''), (''CXX'', ''g++-10''), (''AR'', ''gcc-ar-10''),
       (''NM'', ''gcc-nm-10'')]"
    "env_of (build_types (fst ?m) ! 1) = []"
    by code_simp+
  note res = merged_in_fixed_order [OF ok cs v m]
  have a: "map_of (fst (snd ?m)) =
     map_of [(''os'', ''Linux''), (''os_build'', ''Linux''), (''arch'', ''x86_64''),
             (''arch_build'', ''x86_64'')] ++
     map_of [(''compiler'', ''gcc''), (''compiler.version'', ''10''),
             (''compiler.libcxx'', ''libstdc++11'')] ++
     map_of [(''build_type'', ''Release'')]"
    using res [THEN conjunct1] by (simp only: t)
  have b: "map_of (snd (snd ?m)) =
     map_of [(''CC'', ''gcc-10''), (''CXX'', ''g++-10''), (''AR'', ''gcc-ar-10''),
             (''NM'', ''gcc-nm-10'')] ++ map_of []"
    using res [THEN conjunct2, THEN conjunct2, THEN conjunct1] e by (simp only: t)
  from ok v0 v e a b show ?thesis
    by (intro conjI)
qed

text \<open>
  C2. In any iteration of a run over a platform's variants and the script's build types:
  when the compiler variant's settings give \<open>Visual Studio\<close> as the compiler, the merged
  \<open>compiler.runtime\<close> is \<open>MT\<close> for the variant \<open>msvc_mt\<close> and \<open>MD\<close> for any other,
  with \<open>d\<close> appended for the build type \<open>debug\<close>; when neither the os/arch nor the
  compiler variant names Visual Studio, the three entries are left as the table gives
  them and the merged settings, \<open>compiler.runtime\<close> among them, are the union of the
  table's mappings.
\<close>

theorem runtime_linkage_rule:
  assumes "store_ok s0" and "build_types s0 = BUILD_TYPES"
    and "\<forall>c\<in>set cs. valid s0 c" and "valid s0 (i, j, k)"
    and "merge_profile (store_after cs s0) (i, j, k) = (s', profile_settings, profile_env)"
  shows "(map_of (settings_of (compiler_types s0 ! j)) ''compiler'' = Some ''Visual Studio'' \<longrightarrow>
            map_of profile_settings ''compiler.runtime'' =
              Some (if name (compiler_types s0 ! j) = ''msvc_mt''
                    then (if name (build_types s0 ! k) = ''debug'' then ''MTd'' else ''MT'')
                    else (if name (build_types s0 ! k) = ''debug'' then ''MDd'' else ''MD''))) \<and>
         (map_of (settings_of (os_arch_types s0 ! i)) ''compiler'' \<noteq> Some ''Visual Studio'' \<and>
          map_of (settings_of (compiler_types s0 ! j)) ''compiler'' \<noteq> Some ''Visual Studio'' \<longrightarrow>
            os_arch_types s' ! i = os_arch_types s0 ! i \<and>
            compiler_types s' ! j = compiler_types s0 ! j \<and>
            build_types s' ! k = build_types s0 ! k \<and>
            map_of profile_settings =
              map_of (settings_of (os_arch_types s0 ! i)) ++
              map_of (settings_of (compiler_types s0 ! j)) ++
              map_of (settings_of (build_types s0 ! k)) \<and>
            map_of profile_settings ''compiler.runtime'' =
              (map_of (settings_of (os_arch_types s0 ! i)) ++
               map_of (settings_of (compiler_types s0 ! j))) ''compiler.runtime'')"
proof -
  note run = merge_profile_run [OF assms(3,4,5)]
  note ok0 = store_ok_nth [OF assms(1,4)]
  let ?cn = "name (compiler_types s0 ! j)" and ?bn = "name (build_types s0 ! k)"
  let ?oa = "os_arch_types s0 ! i" and ?c = "compiler_types s0 ! j" and ?b = "build_types s0 ! k"
  have vs_iff: "\<And>e. is_vs e \<longleftrightarrow> map_of (settings_of e) ''compiler'' = Some ''Visual Studio''"
    by (auto simp: is_vs_def dict_get_def split: option.splits)
  from assms(2,4) have k: "k < length BUILD_TYPES"
    by (simp add: valid_def)
  have b_plain: "\<not> is_vs ?b" "map_of (settings_of ?b) ''compiler.runtime'' = None"
    using build_types_plain [OF k] by (simp_all add: assms(2))
  have ok: "dict_ok (settings_of (apply_runtime ?cn ?bn ?oa))"
    "dict_ok (settings_of (apply_runtime ?cn ?bn ?c))"
    "dict_ok (settings_of (apply_runtime ?cn ?bn ?b))"
    using ok0 [THEN entry_ok_apply_runtime] by (simp_all add: entry_ok_def)
  have merged: "map_of profile_settings =
      map_of (settings_of (apply_runtime ?cn ?bn ?oa)) ++
      map_of (settings_of (apply_runtime ?cn ?bn ?c)) ++
      map_of (settings_of (apply_runtime ?cn ?bn ?b))"
    unfolding run(4) run(1,2,3) using ok by (rule map_of_merge3)
  have b_same: "apply_runtime ?cn ?bn ?b = ?b"
    using b_plain(1) by (rule apply_runtime_not_vs)
  show ?thesis
  proof (intro conjI impI)
    assume "map_of (settings_of ?c) ''compiler'' = Some ''Visual Studio''"
    then have "is_vs ?c"
      by (simp add: vs_iff)
    then have "map_of (settings_of (apply_runtime ?cn ?bn ?c)) ''compiler.runtime'' =
        Some (runtime_linkage ?cn ?bn)"
      by (simp add: settings_of_apply_runtime map_of_dict_setitem)
    then have "map_of profile_settings ''compiler.runtime'' = Some (runtime_linkage ?cn ?bn)"
      by (simp add: merged b_same map_add_def b_plain(2))
    then show "map_of profile_settings ''compiler.runtime'' =
              Some (if ?cn = ''msvc_mt''
                    then (if ?bn = ''debug'' then ''MTd'' else ''MT'')
                    else (if ?bn = ''debug'' then ''MDd'' else ''MD''))"
      by (simp only: runtime_linkage_def)
  next
    assume "map_of (settings_of ?oa) ''compiler'' \<noteq> Some ''Visual Studio'' \<and>
          map_of (settings_of ?c) ''compiler'' \<noteq> Some ''Visual Studio''"
    then have "\<not> is_vs ?oa" and "\<not> is_vs ?c"
      by (simp_all add: vs_iff)
    then have same: "apply_runtime ?cn ?bn ?oa = ?oa" "apply_runtime ?cn ?bn ?c = ?c"
      by (simp_all add: apply_runtime_not_vs)
    show "os_arch_types s' ! i = ?oa" "compiler_types s' ! j = ?c" "build_types s' ! k = ?b"
      by (simp_all add: run(1,2,3) same b_same)
    show m: "map_of profile_settings =
        map_of (settings_of ?oa) ++ map_of (settings_of ?c) ++ map_of (settings_of ?b)"
      by (simp add: merged same b_same)
    show "map_of profile_settings ''compiler.runtime'' =
        (map_of (settings_of ?oa) ++ map_of (settings_of ?c)) ''compiler.runtime''"
      by (simp add: m map_add_def b_plain(2))
  qed
qed

theorem runtime_linkage_rule_witness:
  "store_ok (platform_store ''Windows'') \<and>
   build_types (platform_store ''Windows'') = BUILD_TYPES \<and>
   valid (platform_store ''Windows'') (0, 0, 0) \<and>
   valid (platform_store ''Windows'') (0, 0, 1) \<and>
   map_of (settings_of (compiler_types (platform_store ''Windows'') ! 0)) ''compiler'' =
     Some ''Visual Studio'' \<and>
   name (compiler_types (platform_store ''Windows'') ! 0) = ''msvc_mt'' \<and>
   name (build_types (platform_store ''Windows'') ! 0) = ''debug'' \<and>
   name (build_types (platform_store ''Windows'') ! 1) = ''release'' \<and>
   map_of (fst (snd (merge_profile (store_after [] (platform_store ''Windows'')) (0, 0, 0))))
     ''compiler.runtime'' = Some ''MTd'' \<and>
   map_of (fst (snd (merge_profile (store_after [(0, 0, 0)] (platform_store ''Windows'')) (0, 0, 1))))
     ''compiler.runtime'' = Some ''MT'' \<and>
   store_ok (platform_store ''Linux'') \<and>
   build_types (platform_store ''Linux'') = BUILD_TYPES \<and>
   valid (platform_store ''Linux'') (0, 1, 0) \<and>
   map_of (settings_of (os_arch_types (platform_store ''Linux'') ! 0)) ''compiler'' \<noteq>
     Some ''Visual Studio'' \<and>
   map_of (settings_of (compiler_types (platform_store ''Linux'') ! 1)) ''compiler'' \<noteq>
     Some ''Visual Studio'' \<and>
   map_of (fst (snd (merge_profile (store_after [] (platform_store ''Linux'')) (0, 1, 0))))
     ''compiler.runtime'' = None"
proof -
  let ?w = "platform_store ''Windows''" and ?l = "platform_store ''Linux''"
  let ?m0 = "merge_profile (store_after [] ?w) (0, 0, 0)"
  let ?m1 = "merge_profile (store_after [(0, 0, 0)] ?w) (0, 0, 1)"
  let ?m2 = "merge_profile (store_after [] ?l) (0, 1, 0)"
  have ok: "store_ok ?w" "store_ok ?l"
    by code_simp+
  have bt: "build_types ?w = BUILD_TYPES" "build_types ?l = BUILD_TYPES"
    by (simp_all add: platform_store_def store_of_def split: option.splits)
  have v: "valid ?w (0, 0, 0)" "valid ?w (0, 0, 1)" "valid ?l (0, 1, 0)"
    by code_simp+
  have vs: "map_of (settings_of (compiler_types ?w ! 0)) ''compiler'' = Some ''Visual Studio''"
    by code_simp
  have nvs: "map_of (settings_of (os_arch_types ?l ! 0)) ''compiler'' \<noteq> Some ''Visual Studio''"
    "map_of (settings_of (compiler_types ?l ! 1)) ''compiler'' \<noteq> Some ''Visual Studio''"
    by code_simp+
  have n: "name (compiler_types ?w ! 0) = ''msvc_mt''" "name (build_types ?w ! 0) = ''debug''"
    "name (build_types ?w ! 1) = ''release''"
    by code_simp+
  have none: "(map_of (settings_of (os_arch_types ?l ! 0)) ++
      map_of (settings_of (compiler_types ?l ! 1))) ''compiler.runtime'' = None"
    by code_simp
  have m0: "?m0 = (fst ?m0, fst (snd ?m0), snd (snd ?m0))"
    and m1: "?m1 = (fst ?m1, fst (snd ?m1), snd (snd ?m1))"
    and m2: "?m2 = (fst ?m2, fst (snd ?m2), snd (snd ?m2))"
    by simp_all
  have cs0: "\<forall>c\<in>set []. valid ?w c" and cs1: "\<forall>c\<in>set [(0, 0, 0)]. valid ?w c"
    and cs2: "\<forall>c\<in>set []. valid ?l c"
    using v by simp_all
  have a: "map_of (fst (snd ?m0)) ''compiler.runtime'' = Some ''MTd''"
    using runtime_linkage_rule [OF ok(1) bt(1) cs0 v(1) m0, THEN conjunct1] vs
    by (simp add: n n [unfolded One_nat_def])
  have b: "map_of (fst (snd ?m1)) ''compiler.runtime'' = Some ''MT''"
    using runtime_linkage_rule [OF ok(1) bt(1) cs1 v(2) m1, THEN conjunct1] vs
    by (simp add: n n [unfolded One_nat_def])
  have c: "map_of (fst (snd ?m2)) ''compiler.runtime'' = None"
    using runtime_linkage_rule [OF ok(2) bt(2) cs2 v(3) m2, THEN conjunct2, THEN mp,
        OF conjI [OF nvs], THEN conjunct2, THEN conjunct2, THEN conjunct2, THEN conjunct2]
    by (simp only: none)
  from ok bt v vs n a b nvs c show ?thesis
    by (intro conjI)
qed

lemma zip_rendered:
  assumes "\<forall>c\<in>set cs. valid s0 c"
  shows "set (zip cs (rendered_profiles cs s0)) = (\<lambda>c. (c, snd (build_profile s0 c))) ` set cs"
proof -
  have "rendered_profiles cs s0 = map (\<lambda>c. snd (build_profile s0 c)) cs"
    using store_rel_refl assms by (rule rendered_profiles_rel)
  then show ?thesis
    by (simp add: zip_map2 zip_same_conv_map image_image)
qed

text \<open>
  C10. The runtime write goes to the table: after an iteration whose compiler variant
  names Visual Studio, the variant's own settings dictionary in the store holds the value
  computed from that iteration's variant name and build type name, whatever an earlier
  iteration stored there. The loop over a sequence of combinations is the writing of the
  profiles \<open>rendered_profiles\<close> lists, and each of them is the profile its combination
  gives on the table the run started from: so a profile depends on its combination alone,
  and any two sequences over the same combinations, in any order, pair every combination
  with the same profile.
\<close>

theorem runtime_write_aliases_table:
  assumes "\<forall>c\<in>set cs. valid s0 c" and "valid s0 (i, j, k)"
    and "merge_profile (store_after cs s0) (i, j, k) = (s', profile_settings, profile_env)"
  shows "(is_vs (compiler_types s0 ! j) \<longrightarrow>
            settings (compiler_types s' ! j) =
              Some (dict_setitem (settings_of (compiler_types s0 ! j)) ''compiler.runtime''
                      (runtime_linkage (name (compiler_types s0 ! j))
                         (name (build_types s0 ! k))))) \<and>
         generate_profiles pp cs (s0, st) =
           (store_after cs s0, write_all pp (rendered_profiles cs s0) st) \<and>
         rendered_profiles cs s0 = map (\<lambda>c. snd (build_profile s0 c)) cs \<and>
         snd (build_profile (store_after cs s0) (i, j, k)) = snd (build_profile s0 (i, j, k)) \<and>
         ((\<forall>c\<in>set cs'. valid s0 c) \<and> set cs' = set cs \<longrightarrow>
            set (zip cs' (rendered_profiles cs' s0)) = set (zip cs (rendered_profiles cs s0)))"
proof (intro conjI impI)
  note run = merge_profile_run [OF assms]
  assume vs: "is_vs (compiler_types s0 ! j)"
  then obtain d where d: "settings (compiler_types s0 ! j) = Some d"
    using is_vs_settings by blast
  show "settings (compiler_types s' ! j) =
      Some (dict_setitem (settings_of (compiler_types s0 ! j)) ''compiler.runtime''
              (runtime_linkage (name (compiler_types s0 ! j)) (name (build_types s0 ! k))))"
    unfolding run(2) using vs by (simp add: apply_runtime_def runtime_value_eq)
next
  show "generate_profiles pp cs (s0, st) =
      (store_after cs s0, write_all pp (rendered_profiles cs s0) st)"
    by (rule generate_profiles_eq)
next
  show "rendered_profiles cs s0 = map (\<lambda>c. snd (build_profile s0 c)) cs"
    using store_rel_refl assms(1) by (rule rendered_profiles_rel)
next
  have "store_rel s0 (store_after cs s0)"
    using store_rel_refl assms(1) by (rule store_after_rel)
  then show "snd (build_profile (store_after cs s0) (i, j, k)) = snd (build_profile s0 (i, j, k))"
    using assms(2) by (rule build_profile_rel(1))
next
  assume "(\<forall>c\<in>set cs'. valid s0 c) \<and> set cs' = set cs"
  then show "set (zip cs' (rendered_profiles cs' s0)) = set (zip cs (rendered_profiles cs s0))"
    using assms(1) by (simp add: zip_rendered)
qed

theorem runtime_write_aliases_table_witness:
  "valid (platform_store ''Windows'') (0, 0, 0) \<and>
   valid (platform_store ''Windows'') (0, 0, 1) \<and>
   is_vs (compiler_types (platform_store ''Windows'') ! 0) \<and>
   settings (compiler_types (platform_store ''Windows'') ! 0) =
     Some [(''compiler'', ''Visual Studio''), (''compiler.version'', ''16''),
           (''compiler.runtime'', ''MT'')] \<and>
   settings (compiler_types (fst (merge_profile (store_after [] (platform_store ''Windows''))
       (0, 0, 0))) ! 0) =
     Some [(''compiler'', ''Visual Studio''), (''compiler.version'', ''16''),
           (''compiler.runtime'', ''MTd'')] \<and>
   settings (compiler_types (store_after [(0, 0, 0)] (platform_store ''Windows'')) ! 0) =
     Some [(''compiler'', ''Visual Studio''), (''compiler.version'', ''16''),
           (''compiler.runtime'', ''MTd'')] \<and>
   rendered_profiles [(0, 0, 1), (0, 0, 0)] (platform_store ''Windows'') =
     [snd (build_profile (platform_store ''Windows'') (0, 0, 1)),
      snd (build_profile (platform_store ''Windows'') (0, 0, 0))] \<and>
   snd (build_profile (store_after [(0, 0, 0)] (platform_store ''Windows'')) (0, 0, 1)) =
     (''windows-x86_64-msvc_mt-release'',
      ''[settings]\<newline>os=Windows\<newline>os_build=Windows\<newline>arch=x86_64\<newline>arch_build=x86_64\<newline>compiler=Visual Studio\<newline>compiler.version=16\<newline>compiler.runtime=MT\<newline>build_type=Release\<newline>[options]\<newline>[build_requires]\<newline>[env]\<newline>\<newline>'')"
proof -
  let ?w = "platform_store ''Windows''"
  let ?m0 = "merge_profile (store_after [] ?w) (0, 0, 0)"
  let ?m1 = "merge_profile (store_after [(0, 0, 0)] ?w) (0, 0, 1)"
  let ?m2 = "merge_profile (store_after [(0, 0, 1), (0, 0, 0)] ?w) (0, 0, 0)"
  have v: "valid ?w (0, 0, 0)" "valid ?w (0, 0, 1)"
    by code_simp+
  have vs: "is_vs (compiler_types ?w ! 0)"
    by code_simp
  have t: "settings (compiler_types ?w ! 0) =
     Some [(''compiler'', ''Visual Studio''), (''compiler.version'', ''16''),
           (''compiler.runtime'', ''MT'')]"
    by code_simp
  have after: "settings (compiler_types (store_after [(0, 0, 0)] ?w) ! 0) =
     Some [(''compiler'', ''Visual Studio''), (''compiler.version'', ''16''),
           (''compiler.runtime'', ''MTd'')]"
    by code_simp
  have val: "dict_setitem (settings_of (compiler_types ?w ! 0)) ''compiler.runtime''
      (runtime_linkage (name (compiler_types ?w ! 0)) (name (build_types ?w ! 0))) =
     [(''compiler'', ''Visual Studio''), (''compiler.version'', ''16''),
      (''compiler.runtime'', ''MTd'')]"
    by code_simp
  have pristine: "snd (build_profile ?w (0, 0, 1)) =
     (''windows-x86_64-msvc_mt-release'',
      ''[settings]\<newline>os=Windows\<newline>os_build=Windows\<newline>arch=x86_64\<newline>arch_build=x86_64\<newline>compiler=Visual Studio\<newline>compiler.version=16\<newline>compiler.runtime=MT\<newline>build_type=Release\<newline>[options]\<newline>[build_requires]\<newline>[env]\<newline>\<newline>'')"
    by code_simp
  have m0: "?m0 = (fst ?m0, fst (snd ?m0), snd (snd ?m0))"
    and m1: "?m1 = (fst ?m1, fst (snd ?m1), snd (snd ?m1))"
    and m2: "?m2 = (fst ?m2, fst (snd ?m2), snd (snd ?m2))"
    by simp_all
  have cs0: "\<forall>c\<in>set []. valid ?w c" and cs1: "\<forall>c\<in>set [(0, 0, 0)]. valid ?w c"
    and cs2: "\<forall>c\<in>set [(0, 0, 1), (0, 0, 0)]. valid ?w c"
    using v by simp_all
  have a: "settings (compiler_types (fst ?m0) ! 0) =
     Some [(''compiler'', ''Visual Studio''), (''compiler.version'', ''16''),
           (''compiler.runtime'', ''MTd'')]"
    using runtime_write_aliases_table [OF cs0 v(1) m0, THEN conjunct1, THEN mp, OF vs]
    by (simp only: val)
  have b: "rendered_profiles [(0, 0, 1), (0, 0, 0)] ?w =
     [snd (build_profile ?w (0, 0, 1)), snd (build_profile ?w (0, 0, 0))]"
    using runtime_write_aliases_table [OF cs2 v(1) m2, THEN conjunct2, THEN conjunct2,
        THEN conjunct1]
    by (simp only: list.map)
  have c: "snd (build_profile (store_after [(0, 0, 0)] ?w) (0, 0, 1)) =
     (''windows-x86_64-msvc_mt-release'',
      ''[settings]\<newline>os=Windows\<newline>os_build=Windows\<newline>arch=x86_64\<newline>arch_build=x86_64\<newline>compiler=Visual Studio\<newline>compiler.version=16\<newline>compiler.runtime=MT\<newline>build_type=Release\<newline>[options]\<newline>[build_requires]\<newline>[env]\<newline>\<newline>'')"
    using runtime_write_aliases_table [OF cs1 v(2) m1, THEN conjunct2, THEN conjunct2,
        THEN conjunct2, THEN conjunct1]
    by (simp only: pristine)
  from v vs t a after b c show ?thesis
    by (intro conjI)
qed

end
